theory Spec2Isabelle
  imports Complex_Main "HOL-Library.Sublist"
begin

section \<open>JavaScript strings\<close>

text \<open>
  A JavaScript string is a sequence of UTF-16 code units. The model keeps the code units
  below 256 (Latin-1), one \<open>char\<close> each, so \<open>length\<close> is the string's \<open>.length\<close>.
  On this range \<open>toLowerCase\<close> maps each unit to one unit.
\<close>

definition is_space :: "char \<Rightarrow> bool" where
  \<comment> \<open>the class \<open>\s\<close>, which is also what \<open>trim\<close> removes: TAB, LF, VT, FF, CR, SP, NBSP\<close>
  "is_space c = (c \<in> set [CHR 0x09, CHR 0x0A, CHR 0x0B, CHR 0x0C, CHR 0x0D, CHR 0x20, CHR 0xA0])"

definition is_word_char :: "char \<Rightarrow> bool" where
  \<comment> \<open>the class \<open>\w\<close>: \<open>[A-Za-z0-9_]\<close>\<close>
  "is_word_char c =
     (c \<in> set ''abcdefghijklmnopqrstuvwxyzABCDEFGHIJKLMNOPQRSTUVWXYZ0123456789_'')"

definition toLowerChar :: "char \<Rightarrow> char" where
  \<comment> \<open>\<open>A-Z\<close> and the Latin-1 capitals \<open>0xC0-0xDE\<close> (but the sign \<open>0xD7\<close>) move up by 32\<close>
  "toLowerChar c =
     (let n = (of_char c :: nat)
      in if (65 \<le> n \<and> n \<le> 90) \<or> (192 \<le> n \<and> n \<le> 222 \<and> n \<noteq> 215)
         then char_of (n + 32) else c)"

definition toLowerCase :: "string \<Rightarrow> string" where
  "toLowerCase s = map toLowerChar s"

text \<open>
  \<open>s.split(/\s+/)\<close>: the fields between the runs of whitespace. A run at the start or at
  the end leaves an empty field there, and the empty string has one empty field.
  The flag says that the unit before was part of a separator.
\<close>

fun split_from :: "bool \<Rightarrow> string \<Rightarrow> string list" where
  "split_from sep [] = [[]]"
| "split_from sep (c # cs) =
     (if is_space c then (if sep then split_from True cs else [] # split_from True cs)
      else (case split_from False cs of [] \<Rightarrow> [[c]] | w # ws \<Rightarrow> (c # w) # ws))"

definition split_ws :: "string \<Rightarrow> string list" where
  "split_ws s = split_from False s"

definition trim :: "string \<Rightarrow> string" where
  "trim s = rev (dropWhile is_space (rev (dropWhile is_space s)))"

fun join_space :: "string list \<Rightarrow> string" where
  \<comment> \<open>\<open>ws.join(' ')\<close>\<close>
  "join_space [] = []"
| "join_space [w] = w"
| "join_space (w # ws) = w @ CHR 0x20 # join_space ws"

fun starts_by :: "(char \<Rightarrow> char \<Rightarrow> bool) \<Rightarrow> string \<Rightarrow> string \<Rightarrow> bool" where
  \<comment> \<open>\<open>starts_by eq s p\<close>: \<open>p\<close> stands at the start of \<open>s\<close>, unit by unit up to \<open>eq\<close>\<close>
  "starts_by eq s [] = True"
| "starts_by eq [] (p # ps) = False"
| "starts_by eq (c # cs) (p # ps) = (eq c p \<and> starts_by eq cs ps)"

fun indexOf :: "string \<Rightarrow> string \<Rightarrow> nat option" where
  \<comment> \<open>\<open>s.indexOf(p)\<close>; \<open>None\<close> is the result \<open>-1\<close>\<close>
  "indexOf [] p = (if p = [] then Some 0 else None)"
| "indexOf (c # cs) p =
     (if starts_by (=) (c # cs) p then Some 0 else map_option Suc (indexOf cs p))"

definition includes_str :: "string \<Rightarrow> string \<Rightarrow> bool" where
  "includes_str s p = (indexOf s p \<noteq> None)"

definition substring :: "string \<Rightarrow> nat \<Rightarrow> nat \<Rightarrow> string" where
  \<comment> \<open>\<open>s.substring(a, b)\<close> for integers \<open>a, b \<ge> 0\<close>: the smaller one is the start, and an end
     beyond the string is clipped\<close>
  "substring s a b = take (max a b - min a b) (drop (min a b) s)"

definition slice :: "'a list \<Rightarrow> int \<Rightarrow> int \<Rightarrow> 'a list" where
  \<comment> \<open>\<open>xs.slice(a, b)\<close> for integers: a negative index counts from the end\<close>
  "slice xs a b =
     (let n = int (length xs);
          from = (if a < 0 then max (n + a) 0 else min a n);
          to = (if b < 0 then max (n + b) 0 else min b n)
      in take (nat (to - from)) (drop (nat from) xs))"

section \<open>Errors\<close>

datatype error =
    NotConfigured      \<comment> \<open>\<open>Error('OpenAI not configured for semantic search')\<close>\<close>
  | EmbeddingFailed    \<comment> \<open>\<open>Error('Failed to generate query embedding')\<close>\<close>
  | StorageError       \<comment> \<open>the database call rejected\<close>
  | SyntaxError        \<comment> \<open>\<open>new RegExp\<close> refused the pattern\<close>
  | Hang               \<comment> \<open>a loop that never ends\<close>

section \<open>Regular expressions built from query words\<close>

text \<open>
  Both services build a pattern from a query word as it is, without escaping it. Whether
  \<open>new RegExp\<close> accepts the pattern and what it matches is decided here on two classes
  of words:
  \<^item> a word without any syntax character is a literal: the pattern matches its text;
  \<^item> a word with an opening parenthesis and no closing one, no bracket and no backslash
    opens a group that nothing closes: \<open>new RegExp\<close> throws \<open>SyntaxError\<close>.
  Every other pattern is left to \<open>engine\<close>, which stands for the JavaScript engine there:
  it gets the pattern's source, the flags and the subject, and gives the number of matches
  of \<open>subject.match(pattern)\<close>, or \<open>None\<close> when \<open>new RegExp\<close> throws.
\<close>

type_synonym engine = "string \<Rightarrow> string \<Rightarrow> string \<Rightarrow> nat option"

definition syntax_chars :: "char list" where
  "syntax_chars = [CHR 0x5C, CHR ''^'', CHR ''$'', CHR ''.'', CHR ''*'', CHR ''+'', CHR ''?'',
     CHR ''('', CHR '')'', CHR ''['', CHR '']'', CHR ''{'', CHR ''}'', CHR ''|'']"

definition literal_pattern :: "string \<Rightarrow> bool" where
  "literal_pattern w = (w \<noteq> [] \<and> list_all (\<lambda>c. c \<notin> set syntax_chars) w)"

definition unterminated_group :: "string \<Rightarrow> bool" where
  "unterminated_group w =
     (CHR ''('' \<in> set w \<and> CHR '')'' \<notin> set w \<and> CHR ''['' \<notin> set w \<and> CHR 0x5C \<notin> set w)"

fun first :: "string \<Rightarrow> char option" where
  "first [] = None"
| "first (c # cs) = Some c"

definition boundary :: "char option \<Rightarrow> char option \<Rightarrow> bool" where
  \<comment> \<open>\<open>\b\<close> between two neighbours; beyond either end of the subject there is no word character\<close>
  "boundary l r =
     ((case l of None \<Rightarrow> False | Some c \<Rightarrow> is_word_char c)
      \<noteq> (case r of None \<Rightarrow> False | Some c \<Rightarrow> is_word_char c))"

definition ci_eq :: "char \<Rightarrow> char \<Rightarrow> bool" where
  \<comment> \<open>flag \<open>i\<close>: on Latin-1 two units are the same letter iff their lower cases agree\<close>
  "ci_eq a b = (toLowerChar a = toLowerChar b)"

text \<open>
  \<open>s.match(new RegExp('\\b' + w + '\\b', 'gi'))\<close> for a literal \<open>w\<close>: the scan goes left to
  right, and after a match it goes on behind the match. \<open>prev\<close> is the unit before \<open>s\<close>.
\<close>

function count_word :: "string \<Rightarrow> char option \<Rightarrow> string \<Rightarrow> nat" where
  "count_word w prev [] = 0"
| "count_word w prev (c # cs) =
     (if w \<noteq> [] \<and> boundary prev (Some c) \<and> starts_by ci_eq (c # cs) w
         \<and> boundary (Some (last (take (length w) (c # cs)))) (first (drop (length w) (c # cs)))
      then Suc (count_word w (Some (last (take (length w) (c # cs)))) (drop (length w) (c # cs)))
      else count_word w (Some c) cs)"
  by pat_completeness auto
termination
  by (relation "measure (\<lambda>(w, prev, s). length s)") auto

text \<open>\<open>s.match(new RegExp(w, 'g'))\<close> for a literal \<open>w\<close>.\<close>

function count_plain :: "string \<Rightarrow> string \<Rightarrow> nat" where
  "count_plain w [] = 0"
| "count_plain w (c # cs) =
     (if w \<noteq> [] \<and> starts_by (=) (c # cs) w
      then Suc (count_plain w (drop (length w) (c # cs)))
      else count_plain w cs)"
  by pat_completeness auto
termination
  by (relation "measure (\<lambda>(w, s). length s)") auto

definition word_pattern :: "string \<Rightarrow> string" where
  \<comment> \<open>the source \<open>\bw\b\<close>\<close>
  "word_pattern w = [CHR 0x5C, CHR ''b''] @ w @ [CHR 0x5C, CHR ''b'']"

definition match_word :: "engine \<Rightarrow> string \<Rightarrow> string \<Rightarrow> error + nat" where
  \<comment> \<open>\<open>(chunk.match(new RegExp(`\\b${w}\\b`, 'gi')) || []).length\<close>\<close>
  "match_word engine w chunk =
     (if literal_pattern w then Inr (count_word w None chunk)
      else if unterminated_group w then Inl SyntaxError
      else (case engine (word_pattern w) ''gi'' chunk of
              None \<Rightarrow> Inl SyntaxError
            | Some n \<Rightarrow> Inr n))"

definition match_plain :: "engine \<Rightarrow> string \<Rightarrow> string \<Rightarrow> error + nat" where
  \<comment> \<open>\<open>(content.match(new RegExp(w, 'g')) || []).length\<close>\<close>
  "match_plain engine w s =
     (if literal_pattern w then Inr (count_plain w s)
      else if unterminated_group w then Inl SyntaxError
      else (case engine w ''g'' s of
              None \<Rightarrow> Inl SyntaxError
            | Some n \<Rightarrow> Inr n))"

section \<open>The document service (\<open>search-service.js\<close>)\<close>

subsection \<open>Documents and the store (\<open>database.js\<close> of the document service)\<close>

text \<open>
  The text of a stored embedding is JSON. The model keeps what \<open>JSON.parse\<close> makes of it:
  it throws, it gives something that is no array, or it gives an array of numbers.
  Numbers are reals: the rounding, the overflow and the \<open>NaN\<close> of IEEE doubles are not
  modelled.
\<close>

datatype vector_text = Malformed | NonArray | Vector "real list"

record document =
  doc_id :: nat
  filename :: string
  content :: string
  wordCount :: nat
  pageCount :: nat
  uploadedAt :: nat
  embedding :: "vector_text option"   \<comment> \<open>\<open>None\<close>: \<open>null\<close>, \<open>undefined\<close> or the empty string\<close>

datatype sqlite =
    Unavailable               \<comment> \<open>the query ends with an error\<close>
  | Table "document list"     \<comment> \<open>the rows of \<open>documents\<close>, in the order of their insertion\<close>

text \<open>
  \<open>SELECT id, filename, content, ... FROM documents ORDER BY uploaded_at DESC\<close>.
  The column \<open>embedding\<close> is not selected. SQL leaves the order of rows with the same
  \<open>uploaded_at\<close> open; the model keeps them in the order of their insertion.
\<close>

fun getAllDocuments :: "sqlite \<Rightarrow> error + document list" where
  "getAllDocuments Unavailable = Inl StorageError"
| "getAllDocuments (Table rows) =
     Inr (map (\<lambda>r. r\<lparr>embedding := None\<rparr>) (sort_key (\<lambda>r. - int (uploadedAt r)) rows))"

subsection \<open>The service\<close>

text \<open>
  The constructor gets the database; \<open>openai\<close> is the client, or \<open>null\<close> without an API
  key. The client is modelled by its one call, from a text to the JSON text of its
  embedding, \<open>None\<close> when the call throws. The database is modelled by what its
  \<open>getAllDocuments()\<close> resolves to, or the error it rejects with.
\<close>

record service =
  openai :: "(string \<Rightarrow> vector_text option) option"
  db_getAllDocuments :: "error + document list"
  regexp :: engine

definition generateEmbedding :: "service \<Rightarrow> string \<Rightarrow> vector_text option" where
  "generateEmbedding sv txt =
     (case openai sv of None \<Rightarrow> None | Some create \<Rightarrow> create txt)"

partial_function (option) chunk_loop ::
  "string list \<Rightarrow> int \<Rightarrow> int \<Rightarrow> int \<Rightarrow> string list \<Rightarrow> string list option" where
  "chunk_loop words chunkSize overlap i chunks =
     (if i < int (length words)
      then chunk_loop words chunkSize overlap (i + (chunkSize - overlap))
             (let chunk = join_space (slice words i (i + chunkSize))
              in if trim chunk \<noteq> [] then chunks @ [chunk] else chunks)
      else Some chunks)"

definition splitTextIntoChunks :: "string \<Rightarrow> int \<Rightarrow> int \<Rightarrow> string list option" where
  \<comment> \<open>\<open>None\<close>: the loop does not end\<close>
  "splitTextIntoChunks txt chunkSize overlap = chunk_loop (split_ws txt) chunkSize overlap 0 []"

definition cosineSimilarity :: "vector_text option \<Rightarrow> vector_text option \<Rightarrow> real" where
  "cosineSimilarity vecA vecB =
     (case (vecA, vecB) of
        (Some (Vector vectorA), Some (Vector vectorB)) \<Rightarrow>
          if length vectorA \<noteq> length vectorB then 0
          else (let dotProduct = (\<Sum>(a, b) \<leftarrow> zip vectorA vectorB. a * b);
                    normA = (\<Sum>a \<leftarrow> vectorA. a * a);
                    normB = (\<Sum>b \<leftarrow> vectorB. b * b);
                    denominator = sqrt normA * sqrt normB
                in if denominator = 0 then 0 else dotProduct / denominator)
      | _ \<Rightarrow> 0)"

record matched_chunk =
  chunk_text :: string
  chunk_score :: nat
  matchedWords :: "string list"

record search_result =
  hit :: document                             \<comment> \<open>the columns copied from the document\<close>
  score :: real
  chunks :: "matched_chunk list option"       \<comment> \<open>only a result of the text search has them\<close>

fun score_chunk :: "engine \<Rightarrow> string \<Rightarrow> string list \<Rightarrow> error + (nat \<times> string list)" where
  "score_chunk en chunk [] = Inr (0, [])"
| "score_chunk en chunk (queryWord # ws) =
     (case match_word en queryWord chunk of
        Inl e \<Rightarrow> Inl e
      | Inr n \<Rightarrow>
          (case score_chunk en chunk ws of
             Inl e \<Rightarrow> Inl e
           | Inr (chunkScore, matched) \<Rightarrow>
               Inr (if 0 < n then (n + chunkScore, queryWord # matched) else (chunkScore, matched))))"

fun match_chunks :: "engine \<Rightarrow> string list \<Rightarrow> string list \<Rightarrow> error + matched_chunk list" where
  "match_chunks en queryWords [] = Inr []"
| "match_chunks en queryWords (chunk # rest) =
     (case score_chunk en chunk queryWords of
        Inl e \<Rightarrow> Inl e
      | Inr (chunkScore, matched) \<Rightarrow>
          (case match_chunks en queryWords rest of
             Inl e \<Rightarrow> Inl e
           | Inr matchedChunks \<Rightarrow>
               Inr (if 0 < chunkScore
                    then \<lparr>chunk_text = chunk, chunk_score = chunkScore, matchedWords = matched\<rparr>
                           # matchedChunks
                    else matchedChunks)))"

fun text_hits :: "engine \<Rightarrow> string list \<Rightarrow> document list \<Rightarrow> error + search_result list" where
  "text_hits en queryWords [] = Inr []"
| "text_hits en queryWords (d # ds) =
     (if content d = [] then text_hits en queryWords ds
      else (case splitTextIntoChunks (toLowerCase (content d)) 500 50 of
              None \<Rightarrow> Inl Hang
            | Some textChunks \<Rightarrow>
                (case match_chunks en queryWords textChunks of
                   Inl e \<Rightarrow> Inl e
                 | Inr matchedChunks \<Rightarrow>
                     (case text_hits en queryWords ds of
                        Inl e \<Rightarrow> Inl e
                      | Inr results \<Rightarrow>
                          Inr (if matchedChunks \<noteq> []
                               then \<lparr>hit = d,
                                     score = real (sum_list (map chunk_score matchedChunks)),
                                     chunks = Some (slice
                                       (sort_key (\<lambda>c. - int (chunk_score c)) matchedChunks) 0 3)\<rparr>
                                    # results
                               else results)))))"

text \<open>
  \<open>results.sort((a, b) => b.score - a.score)\<close>: the sort of Node.js 11 and later is stable,
  so it is the stable sort on the negated score.
\<close>

definition textSearch :: "service \<Rightarrow> string \<Rightarrow> int \<Rightarrow> error + search_result list" where
  "textSearch sv query limit =
     (case db_getAllDocuments sv of
        Inl e \<Rightarrow> Inl e
      | Inr documents \<Rightarrow>
          (let queryWords = filter (\<lambda>w. 2 < length w) (split_ws (toLowerCase query))
           in case text_hits (regexp sv) queryWords documents of
                Inl e \<Rightarrow> Inl e
              | Inr results \<Rightarrow> Inr (slice (sort_key (\<lambda>r. - score r) results) 0 limit)))"

fun semantic_hits :: "vector_text \<Rightarrow> document list \<Rightarrow> search_result list" where
  "semantic_hits queryEmbedding [] = []"
| "semantic_hits queryEmbedding (d # ds) =
     (case embedding d of
        None \<Rightarrow> semantic_hits queryEmbedding ds
      | Some e \<Rightarrow>
          (let similarity = cosineSimilarity (Some queryEmbedding) (Some e)
           in if similarity > 0.1
              then \<lparr>hit = d, score = similarity, chunks = None\<rparr> # semantic_hits queryEmbedding ds
              else semantic_hits queryEmbedding ds))"

definition semanticSearch :: "service \<Rightarrow> string \<Rightarrow> int \<Rightarrow> error + search_result list" where
  "semanticSearch sv query limit =
     (case openai sv of
        None \<Rightarrow> Inl NotConfigured
      | Some create \<Rightarrow>
          (case generateEmbedding sv query of
             None \<Rightarrow> Inl EmbeddingFailed
           | Some queryEmbedding \<Rightarrow>
               (case db_getAllDocuments sv of
                  Inl e \<Rightarrow> Inl e
                | Inr documents \<Rightarrow>
                    Inr (slice (sort_key (\<lambda>r. - score r) (semantic_hits queryEmbedding documents))
                           0 limit))))"

text \<open>
  \<open>search\<close>: the inner \<open>try\<close> turns a failure of the semantic search into a text search;
  the outer \<open>catch\<close> runs the text search once more and rethrows what that one throws.
\<close>

definition search :: "service \<Rightarrow> string \<Rightarrow> int \<Rightarrow> error + search_result list" where
  "search sv query limit =
     (let attempt =
        (case openai sv of
           Some create \<Rightarrow>
             (case semanticSearch sv query limit of
                Inr searchResults \<Rightarrow> Inr searchResults
              | Inl e \<Rightarrow> textSearch sv query limit)
         | None \<Rightarrow> textSearch sv query limit)
      in case attempt of
           Inr searchResults \<Rightarrow> Inr searchResults
         | Inl e \<Rightarrow> textSearch sv query limit)"

subsection \<open>The route \<open>GET /search\<close> of the document service\<close>

datatype 'r response =
    BadRequest string        \<comment> \<open>status 400 with the field \<open>error\<close>\<close>
  | Found "'r list"          \<comment> \<open>status 200 with the field \<open>results\<close>\<close>
  | ServerError              \<comment> \<open>status 500, \<open>error: 'Search failed'\<close>\<close>

fun logSearch :: "sqlite \<Rightarrow> error + unit" where
  "logSearch Unavailable = Inl StorageError"
| "logSearch (Table rows) = Inr ()"

text \<open>
  The server builds the service on its database. \<open>q\<close> is the query parameter and
  \<open>limit_param\<close> is \<open>parseInt(req.query.limit)\<close>, \<open>None\<close> for \<open>NaN\<close>.
\<close>

definition get_search ::
  "(string \<Rightarrow> vector_text option) option \<Rightarrow> engine \<Rightarrow> sqlite \<Rightarrow> string \<Rightarrow> int option
     \<Rightarrow> search_result response" where
  "get_search client en db q limit_param =
     (let limit = (case limit_param of None \<Rightarrow> 10 | Some n \<Rightarrow> if n = 0 then 10 else n)
      in if q = [] \<or> length (trim q) = 0 then BadRequest ''Search query is required''
         else (case search \<lparr>openai = client, db_getAllDocuments = getAllDocuments db, regexp = en\<rparr>
                      q limit of
                 Inl e \<Rightarrow> ServerError
               | Inr results \<Rightarrow>
                   (case logSearch db of
                      Inl e \<Rightarrow> ServerError
                    | Inr u \<Rightarrow> Found results)))"

section \<open>The chunk service\<close>

subsection \<open>The chunker of the document processor (\<open>splitIntoChunks\<close>)\<close>

fun replace_crlf :: "string \<Rightarrow> string" where
  \<comment> \<open>\<open>.replace(/\r\n/g, '\n')\<close>\<close>
  "replace_crlf (a # b # cs) =
     (if a = CHR 0x0D \<and> b = CHR 0x0A then CHR 0x0A # replace_crlf cs
      else a # replace_crlf (b # cs))"
| "replace_crlf cs = cs"

definition replace_tabs :: "string \<Rightarrow> string" where
  \<comment> \<open>\<open>.replace(/\t/g, ' ')\<close>\<close>
  "replace_tabs s = map (\<lambda>c. if c = CHR 0x09 then CHR 0x20 else c) s"

fun collapse_from :: "bool \<Rightarrow> string \<Rightarrow> string" where
  \<comment> \<open>\<open>.replace(/\s+/g, ' ')\<close>; the flag says that the unit before was whitespace\<close>
  "collapse_from sep [] = []"
| "collapse_from sep (c # cs) =
     (if is_space c then (if sep then collapse_from True cs else CHR 0x20 # collapse_from True cs)
      else c # collapse_from False cs)"

definition collapse_ws :: "string \<Rightarrow> string" where
  "collapse_ws s = collapse_from False s"

definition cleanText :: "string \<Rightarrow> string" where
  "cleanText txt = trim (collapse_ws (replace_tabs (replace_crlf txt)))"

definition char_at :: "string \<Rightarrow> nat \<Rightarrow> char option" where
  \<comment> \<open>\<open>text[i]\<close>; \<open>None\<close> is \<open>undefined\<close>, on which every test of a class is false\<close>
  "char_at s i = (if i < length s then Some (s ! i) else None)"

definition is_sentence_end :: "char option \<Rightarrow> bool" where
  "is_sentence_end c = (case c of None \<Rightarrow> False | Some x \<Rightarrow> x \<in> set ''.!?'')"

definition is_space_at :: "char option \<Rightarrow> bool" where
  "is_space_at c = (case c of None \<Rightarrow> False | Some x \<Rightarrow> is_space x)"

text \<open>The loop \<open>for (let i = searchEnd; i > searchStart; i--)\<close>; \<open>k\<close> steps are left.\<close>

fun sentence_scan :: "string \<Rightarrow> nat \<Rightarrow> nat \<Rightarrow> nat \<Rightarrow> nat \<Rightarrow> nat" where
  "sentence_scan s searchEnd fallback i 0 = fallback"
| "sentence_scan s searchEnd fallback i (Suc k) =
     (if is_sentence_end (char_at s i) \<and> (i = searchEnd - 1 \<or> is_space_at (char_at s (i + 1)))
      then i + 1
      else sentence_scan s searchEnd fallback (i - 1) k)"

definition findSentenceBoundary :: "string \<Rightarrow> nat \<Rightarrow> nat \<Rightarrow> nat" where
  "findSentenceBoundary s start stop =
     (let searchStart = nat (max (int start + (int stop - int start) - 100) (int start));
          searchEnd = min (stop + 50) (length s)
      in sentence_scan s searchEnd stop searchEnd (searchEnd - searchStart))"

text \<open>The loop \<open>for (let i = position; i > Math.max(0, position - 50); i--)\<close>.\<close>

fun word_scan :: "string \<Rightarrow> nat \<Rightarrow> nat \<Rightarrow> nat \<Rightarrow> nat" where
  "word_scan s fallback i 0 = fallback"
| "word_scan s fallback i (Suc k) =
     (if is_space_at (char_at s i) \<and> \<not> is_space_at (char_at s (i - 1))
      then i
      else word_scan s fallback (i - 1) k)"

definition findWordBoundary :: "string \<Rightarrow> nat \<Rightarrow> nat" where
  "findWordBoundary s position = word_scan s position position (position - (position - 50))"

function split_loop :: "string \<Rightarrow> nat \<Rightarrow> nat \<Rightarrow> nat \<Rightarrow> string list" where
  "split_loop txt chunkSize overlap start =
     (if start < length txt then
        (let stop0 = start + chunkSize;
             stop = (if stop0 < length txt
                     then (let sentenceEnd = findSentenceBoundary txt start stop0
                           in if sentenceEnd > start then sentenceEnd else stop0)
                     else stop0);
             wordStart = findWordBoundary txt start;
             start' = (if start > 0 \<and> wordStart > start \<and> wordStart < start + 50
                       then wordStart else start);
             chunk = substring txt start' stop;
             next = nat (max (int start' + int chunkSize - int overlap) (int start' + 1))
         in (if trim chunk \<noteq> [] then [trim chunk] else [])
              @ split_loop txt chunkSize overlap next)
      else [])"
  by pat_completeness auto
termination
  by (relation "measure (\<lambda>(txt, chunkSize, overlap, start). length txt - start)") auto

definition splitIntoChunks :: "string \<Rightarrow> nat \<Rightarrow> nat \<Rightarrow> string list" where
  "splitIntoChunks txt chunkSize overlap =
     (if txt = [] then []
      else if length (cleanText txt) \<le> chunkSize then [cleanText txt]
      else split_loop (cleanText txt) chunkSize overlap 0)"

subsection \<open>The chunk store (\<open>database.js\<close> of the chunk service)\<close>

record chunk_row =
  chunk_id :: nat
  chunk_content :: string
  chunk_index :: nat
  chunk_filename :: string      \<comment> \<open>\<open>d.filename\<close> of the joined document\<close>
  document_id :: nat
  created_at :: nat

datatype chunk_store =
    ChunksUnavailable
  | Chunks "chunk_row list"     \<comment> \<open>the joined rows, in the order of their insertion\<close>

definition sql_limit :: "int \<Rightarrow> 'a list \<Rightarrow> 'a list" where
  \<comment> \<open>\<open>LIMIT n\<close>: a negative \<open>n\<close> is no limit\<close>
  "sql_limit n xs = (if n < 0 then xs else take (nat n) xs)"

text \<open>
  \<open>ORDER BY dc.created_at DESC LIMIT ?\<close>. As in \<open>getAllDocuments\<close>, rows that agree on
  the sort key are kept in the order of their insertion.
\<close>

fun getAllChunks :: "chunk_store \<Rightarrow> int \<Rightarrow> error + chunk_row list" where
  "getAllChunks ChunksUnavailable limit = Inl StorageError"
| "getAllChunks (Chunks rows) limit =
     Inr (sql_limit limit (sort_key (\<lambda>c. - int (created_at c)) rows))"

definition sql_lower :: "string \<Rightarrow> string" where
  \<comment> \<open>SQLite's \<open>LOWER\<close> changes the letters \<open>A-Z\<close> only\<close>
  "sql_lower s = map (\<lambda>c. if c \<in> set ''ABCDEFGHIJKLMNOPQRSTUVWXYZ'' then toLowerChar c else c) s"

definition sql_similarity :: "string \<Rightarrow> string \<Rightarrow> real" where
  \<comment> \<open>the column \<open>similarity\<close> of \<open>searchBySimilarity\<close>; \<open>e\<close> is the bound parameter\<close>
  "sql_similarity c e =
     (1 / (1 + \<bar>real (length c) - real (length e)\<bar>))
       * (1 + (if includes_str (sql_lower c) (sql_lower (take 20 e)) then 0.5 else 0))"

record scored_chunk =
  retrieved :: chunk_row
  score_p3 :: "real option"    \<comment> \<open>the field \<open>score\<close>; a row of \<open>getAllChunks\<close> has none\<close>

fun searchBySimilarity :: "chunk_store \<Rightarrow> string \<Rightarrow> int \<Rightarrow> error + scored_chunk list" where
  "searchBySimilarity db e limit =
     (if e = [] then
        (case getAllChunks db limit of
           Inl err \<Rightarrow> Inl err
         | Inr rows \<Rightarrow> Inr (map (\<lambda>c. \<lparr>retrieved = c, score_p3 = None\<rparr>) rows))
      else
        (case db of
           ChunksUnavailable \<Rightarrow> Inl StorageError
         | Chunks rows \<Rightarrow>
             (let queryEmbedding = take 100 e
              in Inr (sql_limit limit
                   (sort_key (\<lambda>r. - the (score_p3 r))
                      (map (\<lambda>c. \<lparr>retrieved = c,
                                  score_p3 = Some (sql_similarity (chunk_content c) queryEmbedding)\<rparr>)
                         rows))))))"

subsection \<open>The service (\<open>search-service.js\<close> of the chunk service)\<close>

text \<open>
  \<open>provider\<close> is \<open>None\<close> without an API key. With a key it is the call of the client,
  from a text to the JSON text of its embedding (what \<open>JSON.stringify\<close> makes of the
  array), \<open>None\<close> when the call throws.
\<close>

record service_p3 =
  provider :: "(string \<Rightarrow> string option) option"
  chunk_db :: chunk_store
  regexp_p3 :: engine

definition generateEmbedding_p3 :: "service_p3 \<Rightarrow> string \<Rightarrow> string option" where
  "generateEmbedding_p3 sv txt =
     (case provider sv of None \<Rightarrow> None | Some create \<Rightarrow> create txt)"

definition basicContentSearch :: "service_p3 \<Rightarrow> string \<Rightarrow> int \<Rightarrow> scored_chunk list" where
  "basicContentSearch sv query limit =
     (case getAllChunks (chunk_db sv) (limit * 3) of
        Inl e \<Rightarrow> []
      | Inr rows \<Rightarrow>
          (let queryWords = split_ws (toLowerCase query)
           in slice
                (sort_key (\<lambda>r. - the (score_p3 r))
                   (filter (\<lambda>r. 0 < the (score_p3 r))
                      (map (\<lambda>c. \<lparr>retrieved = c,
                                  score_p3 = Some (real (length (filter
                                    (includes_str (toLowerCase (chunk_content c))) queryWords)))\<rparr>)
                         rows)))
                0 limit))"

fun word_matches :: "engine \<Rightarrow> string \<Rightarrow> string list \<Rightarrow> error + nat" where
  \<comment> \<open>the first \<open>forEach\<close> of \<open>calculateRelevanceScore\<close>\<close>
  "word_matches en contentLower [] = Inr 0"
| "word_matches en contentLower (w # ws) =
     (if 2 < length w then
        (case match_plain en w contentLower of
           Inl e \<Rightarrow> Inl e
         | Inr occurrences \<Rightarrow>
             (case word_matches en contentLower ws of
                Inl e \<Rightarrow> Inl e
              | Inr n \<Rightarrow> Inr (occurrences + n)))
      else word_matches en contentLower ws)"

fun proximity :: "string \<Rightarrow> string list \<Rightarrow> nat" where
  \<comment> \<open>the second \<open>forEach\<close>: 2 for each pair of neighbours that stands in the content\<close>
  "proximity contentLower (w # nextWord # ws) =
     (if includes_str contentLower (w @ CHR 0x20 # nextWord) then 2 else 0)
       + proximity contentLower (nextWord # ws)"
| "proximity contentLower ws = 0"

definition calculateRelevanceScore :: "engine \<Rightarrow> string \<Rightarrow> string \<Rightarrow> error + real" where
  "calculateRelevanceScore en query ctext =
     (let queryWords = split_ws (toLowerCase query);
          contentLower = toLowerCase ctext;
          phrase = (if includes_str contentLower (toLowerCase query) then 10 else 0)
      in case word_matches en contentLower queryWords of
           Inl e \<Rightarrow> Inl e
         | Inr n \<Rightarrow>
             (let total = real (phrase + n + proximity contentLower queryWords);
                  contentWords = length (split_ws contentLower)
              in Inr (if 0 < contentWords then total / sqrt (real contentWords) else total)))"

definition createExcerpt :: "string \<Rightarrow> string \<Rightarrow> nat \<Rightarrow> string" where
  "createExcerpt ctext query maxLength =
     (case indexOf (toLowerCase ctext) (toLowerCase query) of
        Some queryIndex \<Rightarrow>
          (let start = max 0 (rat_of_nat queryIndex - rat_of_nat maxLength / 2);
               stop = min (rat_of_nat (length ctext)) (start + rat_of_nat maxLength);
               window = substring ctext (nat \<lfloor>start\<rfloor>) (nat \<lfloor>stop\<rfloor>);
               window = (if start > 0 then ''...'' @ window else window);
               window = (if stop < rat_of_nat (length ctext) then window @ ''...'' else window)
           in window)
      | None \<Rightarrow>
          substring ctext 0 maxLength @ (if length ctext > maxLength then ''...'' else []))"

record chunk_result =
  found :: scored_chunk
  relevanceScore :: real
  excerpt :: string

definition round2 :: "real \<Rightarrow> real" where
  \<comment> \<open>\<open>Math.round(x * 100) / 100\<close>\<close>
  "round2 x = real_of_int \<lfloor>x * 100 + 1 / 2\<rfloor> / 100"

fun enhance :: "engine \<Rightarrow> string \<Rightarrow> scored_chunk list \<Rightarrow> error + chunk_result list" where
  \<comment> \<open>\<open>results.map(result => ...)\<close>\<close>
  "enhance en query [] = Inr []"
| "enhance en query (result # rest) =
     (case calculateRelevanceScore en query (chunk_content (retrieved result)) of
        Inl e \<Rightarrow> Inl e
      | Inr relevance \<Rightarrow>
          (case enhance en query rest of
             Inl e \<Rightarrow> Inl e
           | Inr enhanced \<Rightarrow>
               Inr (\<lparr>found = result, relevanceScore = round2 relevance,
                      excerpt = createExcerpt (chunk_content (retrieved result)) query 200\<rparr>
                    # enhanced)))"

definition search_p3 :: "service_p3 \<Rightarrow> string \<Rightarrow> int \<Rightarrow> error + chunk_result list" where
  "search_p3 sv query limit =
     (case (case generateEmbedding_p3 sv query of
              Some queryEmbedding \<Rightarrow> searchBySimilarity (chunk_db sv) queryEmbedding limit
            | None \<Rightarrow> Inr (basicContentSearch sv query limit)) of
        Inl e \<Rightarrow> Inl e
      | Inr results \<Rightarrow>
          (case enhance (regexp_p3 sv) query results of
             Inl e \<Rightarrow> Inl e
           | Inr enhancedResults \<Rightarrow>
               Inr (sort_key (\<lambda>r. - relevanceScore r) enhancedResults)))"

subsection \<open>The route \<open>POST /api/search\<close> of the chunk service\<close>

definition post_api_search :: "service_p3 \<Rightarrow> string \<Rightarrow> int \<Rightarrow> chunk_result response" where
  "post_api_search sv query limit =
     (if query = [] \<or> length (trim query) = 0 then BadRequest ''Search query is required''
      else if length (trim query) < 2 then BadRequest ''Search query too short''
      else (case search_p3 sv query limit of
              Inl e \<Rightarrow> ServerError
            | Inr results \<Rightarrow> Found results))"

section \<open>Example data\<close>

definition ex_row :: "nat \<Rightarrow> nat \<Rightarrow> string \<Rightarrow> vector_text option \<Rightarrow> document" where
  "ex_row i t c e = \<lparr>doc_id = i, filename = ''notes.txt'', content = c, wordCount = 2,
     pageCount = 1, uploadedAt = t, embedding = e\<rparr>"

definition ex_store :: sqlite where
  \<comment> \<open>two uploads with the same text, document 11 before document 12\<close>
  "ex_store = Table [ex_row 11 100 ''hello world'' None, ex_row 12 200 ''hello world'' None]"

definition ex_text :: service where
  \<comment> \<open>the service without an API key on \<open>ex_store\<close>\<close>
  "ex_text = \<lparr>openai = None, db_getAllDocuments = getAllDocuments ex_store,
     regexp = (\<lambda>p f s. None)\<rparr>"


definition ex_chunk :: "nat \<Rightarrow> nat \<Rightarrow> string \<Rightarrow> chunk_row" where
  "ex_chunk i t c = \<lparr>chunk_id = i, chunk_content = c, chunk_index = 0,
     chunk_filename = ''notes.txt'', document_id = i, created_at = t\<rparr>"

definition ex_lexical :: service_p3 where
  \<comment> \<open>the chunk service without an API key\<close>
  "ex_lexical = \<lparr>provider = None, chunk_db = Chunks [ex_chunk 7 100 ''xx ab yy''],
     regexp_p3 = (\<lambda>p f s. None)\<rparr>"

definition ex_hit :: "nat \<Rightarrow> nat \<Rightarrow> search_result" where
  \<comment> \<open>what the text search for \<open>hello\<close> makes of a row of \<open>ex_store\<close>\<close>
  "ex_hit i t = \<lparr>hit = ex_row i t ''hello world'' None, score = 1,
     chunks = Some [\<lparr>chunk_text = ''hello world'', chunk_score = 1,
                      matchedWords = [''hello'']\<rparr>]\<rparr>"

definition ex_hybrid :: service_p3 where
  \<comment> \<open>the chunk service with an API key; the provider answers with a one-number vector\<close>
  "ex_hybrid = \<lparr>provider = Some (\<lambda>t. Some ''[0.5]''),
     chunk_db = Chunks [ex_chunk 7 100 ''hello'', ex_chunk 8 100 ''foo bar baz qux''],
     regexp_p3 = (\<lambda>p f s. None)\<rparr>"

definition ex_result :: "chunk_row \<Rightarrow> real \<Rightarrow> real \<Rightarrow> chunk_result" where
  \<comment> \<open>a result of the chunk service for a chunk shorter than the excerpt\<close>
  "ex_result c s rel = \<lparr>found = \<lparr>retrieved = c, score_p3 = Some s\<rparr>, relevanceScore = rel,
     excerpt = chunk_content c\<rparr>"

section \<open>Lists, slices and strings\<close>

declare chunk_loop.simps [code]


lemma set_slice_subset: "set (slice xs a b) \<subseteq> set xs"
  unfolding slice_def Let_def
  by (meson set_take_subset set_drop_subset subset_trans)




lemma dropWhile_all: "(\<forall>x \<in> set (dropWhile P s). P x) \<longleftrightarrow> dropWhile P s = []"
proof
  assume a: "\<forall>x \<in> set (dropWhile P s). P x"
  show "dropWhile P s = []"
  proof (rule ccontr)
    assume n: "dropWhile P s \<noteq> []"
    then have "\<not> P (hd (dropWhile P s))" by (rule hd_dropWhile)
    moreover have "hd (dropWhile P s) \<in> set (dropWhile P s)" using n by simp
    ultimately show False using a by blast
  qed
next
  assume "dropWhile P s = []"
  then show "\<forall>x \<in> set (dropWhile P s). P x" by (simp del: dropWhile_eq_Nil_conv)
qed

lemma trim_empty_iff: "trim s = [] \<longleftrightarrow> (\<forall>c \<in> set s. is_space c)"
proof -
  have "trim s = [] \<longleftrightarrow> (\<forall>x \<in> set (dropWhile is_space s). is_space x)"
    by (simp add: trim_def dropWhile_eq_Nil_conv)
  also have "\<dots> \<longleftrightarrow> dropWhile is_space s = []" by (rule dropWhile_all)
  also have "\<dots> \<longleftrightarrow> (\<forall>c \<in> set s. is_space c)" by (simp add: dropWhile_eq_Nil_conv)
  finally show ?thesis .
qed

lemma join_space_blank: "\<forall>w \<in> set ws. w = [] \<Longrightarrow> \<forall>c \<in> set (join_space ws). is_space c"
  by (induction ws rule: join_space.induct) (auto simp: is_space_def)

lemma split_from_blank:
  "\<forall>c \<in> set s. is_space c \<Longrightarrow> \<forall>w \<in> set (split_from sep s). w = []"
  by (induction s arbitrary: sep) auto



lemma split_from_nonempty: "split_from sep s \<noteq> []"
  by (induction s arbitrary: sep) (auto split: list.splits)



section \<open>The word chunker of the document service\<close>

lemma chunk_loop_returns:
  assumes "0 < chunkSize - overlap"
  shows "\<exists>r. chunk_loop ws chunkSize overlap i acc = Some r
           \<and> prefix acc r \<and> (\<forall>c \<in> set r. c \<in> set acc \<or> trim c \<noteq> [])"
proof (induction "nat (int (length ws) - i)" arbitrary: i acc rule: less_induct)
  case less
  show ?case
  proof (cases "i < int (length ws)")
    case False
    then show ?thesis by (subst chunk_loop.simps) simp
  next
    case True
    define acc' where "acc' = (let chunk = join_space (slice ws i (i + chunkSize))
              in if trim chunk \<noteq> [] then acc @ [chunk] else acc)"
    have "nat (int (length ws) - (i + (chunkSize - overlap))) < nat (int (length ws) - i)"
      using True assms by linarith
    from less[OF this, of acc'] obtain r where
      r: "chunk_loop ws chunkSize overlap (i + (chunkSize - overlap)) acc' = Some r"
         "prefix acc' r" "\<forall>c \<in> set r. c \<in> set acc' \<or> trim c \<noteq> []"
      by blast
    have 1: "chunk_loop ws chunkSize overlap i acc = Some r"
      using True r(1) by (subst chunk_loop.simps) (simp add: acc'_def)
    have 2: "prefix acc acc'" by (simp add: acc'_def Let_def)
    have 3: "\<forall>c \<in> set acc'. c \<in> set acc \<or> trim c \<noteq> []"
      by (auto simp: acc'_def Let_def)
    have 4: "prefix acc r" using 2 r(2) by (rule prefix_order.trans)
    have 5: "\<forall>c \<in> set r. c \<in> set acc \<or> trim c \<noteq> []"
    proof
      fix c assume "c \<in> set r"
      with r(3) have "c \<in> set acc' \<or> trim c \<noteq> []" by simp
      with 3 show "c \<in> set acc \<or> trim c \<noteq> []" by auto
    qed
    show ?thesis using 1 4 5 by simp
  qed
qed

lemma chunk_loop_blank:
  assumes "0 < chunkSize - overlap" and "\<forall>w \<in> set ws. w = []"
  shows "chunk_loop ws chunkSize overlap i acc = Some acc"
proof (induction "nat (int (length ws) - i)" arbitrary: i rule: less_induct)
  case less
  show ?case
  proof (cases "i < int (length ws)")
    case False
    then show ?thesis by (subst chunk_loop.simps) simp
  next
    case True
    have "\<forall>w \<in> set (slice ws i (i + chunkSize)). w = []"
      using assms(2) set_slice_subset[of ws i "i + chunkSize"] by auto
    then have "\<forall>c \<in> set (join_space (slice ws i (i + chunkSize))). is_space c"
      by (rule join_space_blank)
    then have b: "trim (join_space (slice ws i (i + chunkSize))) = []"
      by (simp only: trim_empty_iff)
    have "nat (int (length ws) - (i + (chunkSize - overlap))) < nat (int (length ws) - i)"
      using True assms by linarith
    from less[OF this] show ?thesis
      using True b by (subst chunk_loop.simps) simp
  qed
qed

text \<open>
  With an overlap below the chunk size the word chunker returns, a text of whitespace
  only has no chunks, and no chunk is blank.
\<close>

lemma splitTextIntoChunks_blank:
  assumes "overlap < chunkSize" and "\<forall>c \<in> set txt. is_space c"
  shows "splitTextIntoChunks txt chunkSize overlap = Some []"
proof -
  have s: "0 < chunkSize - overlap" using assms(1) by simp
  have "\<forall>w \<in> set (split_ws txt). w = []"
    unfolding split_ws_def using assms(2) by (rule split_from_blank)
  from chunk_loop_blank[OF s this] show ?thesis
    by (simp add: splitTextIntoChunks_def)
qed

lemma splitTextIntoChunks_returns:
  assumes "overlap < chunkSize"
  shows "\<exists>cs. splitTextIntoChunks txt chunkSize overlap = Some cs
           \<and> (\<forall>c \<in> set cs. trim c \<noteq> [])"
proof -
  have s: "0 < chunkSize - overlap" using assms(1) by simp
  from chunk_loop_returns[OF s, of "split_ws txt" 0 "[]"] show ?thesis
    by (simp add: splitTextIntoChunks_def)
qed


section \<open>The document service: semantic search\<close>

lemma semantic_hits_sound:
  "r \<in> set (semantic_hits qe docs) \<Longrightarrow>
     hit r \<in> set docs \<and> chunks r = None
     \<and> score r = cosineSimilarity (Some qe) (embedding (hit r)) \<and> 0.1 < score r"
  by (induction docs) (auto simp: Let_def split: option.splits if_splits)


lemma semanticSearch_Inr:
  "semanticSearch sv query limit = Inr results \<Longrightarrow>
     \<exists>qe docs. generateEmbedding sv query = Some qe \<and> db_getAllDocuments sv = Inr docs
       \<and> results = slice (sort_key (\<lambda>r. - score r) (semantic_hits qe docs)) 0 limit"
  by (auto simp: semanticSearch_def split: option.splits sum.splits)




section \<open>The document service: the fallback\<close>

lemma search_without_provider:
  "openai sv = None \<Longrightarrow> search sv query limit = textSearch sv query limit"
  by (simp add: search_def Let_def split: sum.splits)

lemma search_semantic_failed:
  "semanticSearch sv query limit = Inl e \<Longrightarrow> search sv query limit = textSearch sv query limit"
  by (simp add: search_def Let_def split: sum.splits option.splits)

lemma search_semantic_ok:
  "semanticSearch sv query limit = Inr rs \<Longrightarrow> search sv query limit = Inr rs"
  by (auto simp: search_def Let_def semanticSearch_def split: sum.splits option.splits)

lemma search_one_mode:
  "search sv query limit = semanticSearch sv query limit
     \<or> search sv query limit = textSearch sv query limit"
  by (cases "semanticSearch sv query limit")
     (simp_all add: search_semantic_failed search_semantic_ok)

text \<open>
  Claim C1, at the input where the code breaks it. Without a provider and with a readable
  store, the query \<open>main(\<close> makes the text search build the pattern \<open>\bmain(\b\<close>, which
  \<open>new RegExp\<close> refuses; \<open>search\<close> runs the text search again in its \<open>catch\<close> and rethrows
  the error instead of returning a list.
\<close>

theorem search_throws_on_open_parenthesis:
  "search \<lparr>openai = None,
           db_getAllDocuments = Inr [ex_row 11 100 ''int main() { return 0; }'' None],
           regexp = en\<rparr> ''main('' 10 = Inl SyntaxError"
proof -
  have "textSearch \<lparr>openai = None,
           db_getAllDocuments = Inr [ex_row 11 100 ''int main() { return 0; }'' None],
           regexp = en\<rparr> ''main('' 10 = Inl SyntaxError"
    by code_simp
  then show ?thesis by (simp add: search_without_provider)
qed


section \<open>Cosine similarity in exact arithmetic\<close>

text \<open>
  Over the reals of the model the similarity is symmetric, it is 1 for a vector with
  itself unless all its numbers are 0, and it is 0 when a vector is missing, is not
  parseable, is no array, has another length or has only zeros. These are statements of
  exact arithmetic. In doubles a square can underflow to 0 or overflow to infinity, and
  then the denominator is 0 or \<open>NaN\<close>; the model has no such numbers.
\<close>

lemma dot_commute:
  fixes xs ys :: "real list"
  shows "(\<Sum>(a, b) \<leftarrow> zip xs ys. a * b) = (\<Sum>(b, a) \<leftarrow> zip ys xs. b * a)"
proof (induction xs arbitrary: ys)
  case Nil
  then show ?case by simp
next
  case (Cons x xs)
  then show ?case by (cases ys) (simp_all add: mult.commute)
qed

lemma dot_self:
  fixes xs :: "real list"
  shows "(\<Sum>(a, b) \<leftarrow> zip xs xs. a * b) = (\<Sum>a \<leftarrow> xs. a * a)"
  by (induction xs) simp_all

lemma squares_nonneg:
  fixes xs :: "real list"
  shows "0 \<le> (\<Sum>a \<leftarrow> xs. a * a)"
  by (induction xs) simp_all

lemma squares_zero_iff:
  fixes xs :: "real list"
  shows "(\<Sum>a \<leftarrow> xs. a * a) = 0 \<longleftrightarrow> (\<forall>x \<in> set xs. x = 0)"
proof (induction xs)
  case Nil
  then show ?case by simp
next
  case (Cons x xs)
  have "0 \<le> x * x" by simp
  then have "x * x + (\<Sum>a \<leftarrow> xs. a * a) = 0
      \<longleftrightarrow> x * x = 0 \<and> (\<Sum>a \<leftarrow> xs. a * a) = 0"
    using squares_nonneg[of xs] by (rule add_nonneg_eq_0_iff)
  with Cons show ?case by simp
qed

lemma cosineSimilarity_commute: "cosineSimilarity a b = cosineSimilarity b a"
proof -
  have v: "cosineSimilarity (Some (Vector xs)) (Some (Vector ys))
         = cosineSimilarity (Some (Vector ys)) (Some (Vector xs))" for xs ys
    using dot_commute[of xs ys]
    by (simp add: cosineSimilarity_def Let_def mult.commute)
  show ?thesis
  proof (cases a)
    case None
    then show ?thesis by (cases b; simp add: cosineSimilarity_def split: vector_text.splits)
  next
    case (Some u)
    show ?thesis
    proof (cases b)
      case None
      with Some show ?thesis by (simp add: cosineSimilarity_def split: vector_text.splits)
    next
      case (Some w)
      with \<open>a = Some u\<close> show ?thesis
        by (cases u; cases w) (simp_all add: v, simp_all add: cosineSimilarity_def)
    qed
  qed
qed

lemma cosineSimilarity_self:
  assumes "\<exists>x \<in> set xs. x \<noteq> 0"
  shows "cosineSimilarity (Some (Vector xs)) (Some (Vector xs)) = 1"
proof -
  let ?n = "\<Sum>a \<leftarrow> xs. a * a"
  have "?n \<noteq> 0" using assms squares_zero_iff[of xs] by blast
  moreover have "0 \<le> ?n" by (rule squares_nonneg)
  ultimately have "sqrt ?n * sqrt ?n = ?n" "?n \<noteq> 0" by simp_all
  then show ?thesis by (simp add: cosineSimilarity_def dot_self Let_def)
qed

lemma cosineSimilarity_zero_vector:
  assumes "\<forall>x \<in> set xs. x = 0"
  shows "cosineSimilarity (Some (Vector xs)) b = 0"
proof -
  have "(\<Sum>a \<leftarrow> xs. a * a) = 0" using assms squares_zero_iff[of xs] by blast
  then show ?thesis
    by (simp add: cosineSimilarity_def Let_def split: option.splits vector_text.splits)
qed

lemma cosineSimilarity_no_vector:
  "cosineSimilarity None b = 0" "cosineSimilarity (Some Malformed) b = 0"
  "cosineSimilarity (Some NonArray) b = 0"
  "length xs \<noteq> length ys \<Longrightarrow> cosineSimilarity (Some (Vector xs)) (Some (Vector ys)) = 0"
  by (simp_all add: cosineSimilarity_def)

section \<open>The document service: text search and ranking\<close>

lemma match_chunks_positive:
  "match_chunks en qw cs = Inr ms \<Longrightarrow> \<forall>m \<in> set ms. 0 < chunk_score m"
proof (induction cs arbitrary: ms)
  case Nil
  then show ?case by simp
next
  case (Cons c cs)
  then show ?case
    by (auto split: sum.splits prod.splits if_splits)
qed

lemma sum_list_positive:
  fixes ns :: "nat list"
  shows "ns \<noteq> [] \<Longrightarrow> \<forall>n \<in> set ns. 0 < n \<Longrightarrow> 0 < sum_list ns"
  by (cases ns) auto

lemma text_hits_sound:
  "text_hits en qw docs = Inr rs \<Longrightarrow> r \<in> set rs \<Longrightarrow>
     hit r \<in> set docs \<and> 0 < score r
     \<and> (\<exists>ms. chunks r = Some ms \<and> (\<forall>m \<in> set ms. 0 < chunk_score m))"
proof (induction docs arbitrary: rs)
  case Nil
  then show ?case by simp
next
  case (Cons d ds)
  show ?case
  proof (cases "content d = []")
    case True
    with Cons show ?thesis by auto
  next
    case False
    from Cons.prems(1) False obtain tc mc rest where
      tc: "splitTextIntoChunks (toLowerCase (content d)) 500 50 = Some tc"
      and mc: "match_chunks en qw tc = Inr mc"
      and rest: "text_hits en qw ds = Inr rest"
      and rs: "rs = (if mc \<noteq> []
                 then \<lparr>hit = d, score = real (sum_list (map chunk_score mc)),
                       chunks = Some (slice (sort_key (\<lambda>c. - int (chunk_score c)) mc) 0 3)\<rparr> # rest
                 else rest)"
      by (auto split: option.splits sum.splits)
    have pos: "\<forall>m \<in> set mc. 0 < chunk_score m" using mc by (rule match_chunks_positive)
    show ?thesis
    proof (cases "r \<in> set rest")
      case True
      from Cons.IH[OF rest True] show ?thesis by auto
    next
      case nr: False
      with Cons.prems(2) rs have ne: "mc \<noteq> []"
        and r: "r = \<lparr>hit = d, score = real (sum_list (map chunk_score mc)),
                 chunks = Some (slice (sort_key (\<lambda>c. - int (chunk_score c)) mc) 0 3)\<rparr>"
        by (auto split: if_splits)
      have "0 < sum_list (map chunk_score mc)"
        using ne pos by (intro sum_list_positive) auto
      moreover have
        "\<forall>m \<in> set (slice (sort_key (\<lambda>c. - int (chunk_score c)) mc) 0 3). 0 < chunk_score m"
        using pos set_slice_subset[of "sort_key (\<lambda>c. - int (chunk_score c)) mc" 0 3] by auto
      ultimately show ?thesis using r by simp
    qed
  qed
qed


lemma textSearch_Inr:
  "textSearch sv query limit = Inr results \<Longrightarrow>
     \<exists>docs hits. db_getAllDocuments sv = Inr docs
       \<and> text_hits (regexp sv) (filter (\<lambda>w. 2 < length w) (split_ws (toLowerCase query))) docs
           = Inr hits
       \<and> results = slice (sort_key (\<lambda>r. - score r) hits) 0 limit"
  by (auto simp: textSearch_def Let_def split: sum.splits)



lemma getAllDocuments_newest_first:
  "getAllDocuments db = Inr docs \<Longrightarrow> sorted_wrt (\<lambda>a b. uploadedAt b \<le> uploadedAt a) docs"
proof (cases db)
  case Unavailable
  assume "getAllDocuments db = Inr docs"
  with Unavailable show ?thesis by simp
next
  case (Table rows)
  assume a: "getAllDocuments db = Inr docs"
  have "sorted (map (\<lambda>r. - int (uploadedAt r)) (sort_key (\<lambda>r. - int (uploadedAt r)) rows))"
    by (rule sorted_sort_key)
  then have "sorted_wrt (\<lambda>a b. uploadedAt b \<le> uploadedAt a) (sort_key (\<lambda>r. - int (uploadedAt r)) rows)"
    by (simp add: sorted_map)
  then show ?thesis using a Table by (auto simp: sorted_wrt_map)
qed

lemma ex_text_eval: "search ex_text ''hello'' 10 = Inr [ex_hit 12 200, ex_hit 11 100]"
proof -
  have "textSearch ex_text ''hello'' 10 = Inr [ex_hit 12 200, ex_hit 11 100]"
    by code_simp
  then show ?thesis by (simp add: search_without_provider ex_text_def)
qed





section \<open>The document service: the fallback on literal queries\<close>

text \<open>
  When the provider is absent or gives no embedding for the query, the store can be read
  and every query word of more than two characters is a literal, \<open>search\<close> returns the
  list of the text search.
\<close>

lemma score_chunk_literal:
  "\<forall>w \<in> set ws. literal_pattern w \<Longrightarrow> \<exists>r. score_chunk en chunk ws = Inr r"
proof (induction ws)
  case Nil
  then show ?case by simp
next
  case (Cons w ws)
  then obtain r where "score_chunk en chunk ws = Inr r" by auto
  moreover have "match_word en w chunk = Inr (count_word w None chunk)"
    using Cons.prems by (simp add: match_word_def)
  ultimately show ?case by (cases r) simp
qed

lemma match_chunks_literal:
  "\<forall>w \<in> set ws. literal_pattern w \<Longrightarrow> \<exists>ms. match_chunks en ws cs = Inr ms"
proof (induction cs)
  case Nil
  then show ?case by simp
next
  case (Cons c cs)
  then obtain ms where "match_chunks en ws cs = Inr ms" by auto
  moreover obtain r where "score_chunk en c ws = Inr r"
    using score_chunk_literal[OF Cons.prems] by blast
  ultimately show ?case by (cases r) simp
qed

lemma text_hits_literal:
  "\<forall>w \<in> set ws. literal_pattern w \<Longrightarrow> \<exists>rs. text_hits en ws docs = Inr rs"
proof (induction docs)
  case Nil
  then show ?case by simp
next
  case (Cons d ds)
  then obtain rs where rs: "text_hits en ws ds = Inr rs" by auto
  obtain cs where cs: "splitTextIntoChunks (toLowerCase (content d)) 500 50 = Some cs"
    using splitTextIntoChunks_returns[of 50 500 "toLowerCase (content d)"] by auto
  obtain ms where ms: "match_chunks en ws cs = Inr ms"
    using match_chunks_literal[OF Cons.prems] by blast
  show ?case using rs cs ms by simp
qed

lemma search_falls_back:
  assumes "openai sv = None \<or> generateEmbedding sv query = None"
    and "db_getAllDocuments sv = Inr docs"
    and "\<forall>w \<in> set (filter (\<lambda>w. 2 < length w) (split_ws (toLowerCase query))). literal_pattern w"
  shows "\<exists>rs. search sv query limit = Inr rs \<and> textSearch sv query limit = Inr rs"
proof -
  obtain hits where
    "text_hits (regexp sv) (filter (\<lambda>w. 2 < length w) (split_ws (toLowerCase query))) docs = Inr hits"
    using text_hits_literal[OF assms(3)] by blast
  then have t: "\<exists>rs. textSearch sv query limit = Inr rs"
    using assms(2) by (simp add: textSearch_def)
  have "search sv query limit = textSearch sv query limit"
  proof (cases "openai sv")
    case None
    then show ?thesis by (rule search_without_provider)
  next
    case (Some create)
    with assms(1) have "generateEmbedding sv query = None" by simp
    with Some have "semanticSearch sv query limit = Inl EmbeddingFailed"
      by (simp add: semanticSearch_def)
    then show ?thesis by (rule search_semantic_failed)
  qed
  with t show ?thesis by simp
qed


section \<open>A text shorter than one chunk\<close>





section \<open>The chunk service: lexical scores\<close>

lemma round2_nonneg: "0 \<le> x \<Longrightarrow> 0 \<le> round2 x"
  by (simp add: round2_def)

lemma calculateRelevanceScore_nonneg:
  "calculateRelevanceScore en query ctext = Inr x \<Longrightarrow> 0 \<le> x"
  by (auto simp: calculateRelevanceScore_def Let_def split: sum.splits if_splits)

lemma enhance_sound:
  "enhance en query rs = Inr es \<Longrightarrow>
     map found es = rs \<and> (\<forall>e \<in> set es. 0 \<le> relevanceScore e)"
proof (induction rs arbitrary: es)
  case Nil
  then show ?case by simp
next
  case (Cons r rs)
  from Cons.prems obtain x rest where
    x: "calculateRelevanceScore en query (chunk_content (retrieved r)) = Inr x"
    and rest: "enhance en query rs = Inr rest"
    and es: "es = \<lparr>found = r, relevanceScore = round2 x,
                    excerpt = createExcerpt (chunk_content (retrieved r)) query 200\<rparr> # rest"
    by (auto split: sum.splits)
  have "0 \<le> round2 x" using x calculateRelevanceScore_nonneg round2_nonneg by blast
  with Cons.IH[OF rest] es show ?case by simp
qed

lemma search_p3_Inr:
  assumes "search_p3 sv query limit = Inr results"
  shows "\<exists>cands enhanced.
           (case generateEmbedding_p3 sv query of
              Some queryEmbedding \<Rightarrow> searchBySimilarity (chunk_db sv) queryEmbedding limit
            | None \<Rightarrow> Inr (basicContentSearch sv query limit)) = Inr cands
           \<and> enhance (regexp_p3 sv) query cands = Inr enhanced
           \<and> results = sort_key (\<lambda>r. - relevanceScore r) enhanced"
  using assms unfolding search_p3_def by (auto split: sum.splits)

lemma search_p3_nonneg:
  assumes "search_p3 sv query limit = Inr results" and "r \<in> set results"
  shows "0 \<le> relevanceScore r"
proof -
  from search_p3_Inr[OF assms(1)] obtain cands enhanced where
    e: "enhance (regexp_p3 sv) query cands = Inr enhanced"
    and r: "results = sort_key (\<lambda>r. - relevanceScore r) enhanced" by blast
  from r assms(2) have "r \<in> set enhanced" by simp
  with enhance_sound[OF e] show ?thesis by blast
qed

lemma basicContentSearch_positive:
  assumes "r \<in> set (basicContentSearch sv query limit)"
  shows "\<exists>x. score_p3 r = Some x \<and> 0 < x"
proof (cases "getAllChunks (chunk_db sv) (limit * 3)")
  case (Inl e)
  with assms show ?thesis by (simp add: basicContentSearch_def)
next
  case (Inr rows)
  let ?scored = "map (\<lambda>c. \<lparr>retrieved = c,
      score_p3 = Some (real (length (filter
        (includes_str (toLowerCase (chunk_content c))) (split_ws (toLowerCase query)))))\<rparr>) rows"
  from assms Inr have "r \<in> set (slice
      (sort_key (\<lambda>r. - the (score_p3 r)) (filter (\<lambda>r. 0 < the (score_p3 r)) ?scored)) 0 limit)"
    by (simp add: basicContentSearch_def Let_def)
  then have "r \<in> set (sort_key (\<lambda>r. - the (score_p3 r)) (filter (\<lambda>r. 0 < the (score_p3 r)) ?scored))"
    using set_slice_subset by fastforce
  then have "r \<in> set ?scored \<and> 0 < the (score_p3 r)" by simp
  then show ?thesis by auto
qed

lemma ex_lexical_basic:
  "basicContentSearch ex_lexical ''ab cd'' 10
     = [\<lparr>retrieved = ex_chunk 7 100 ''xx ab yy'', score_p3 = Some 1\<rparr>]"
  by code_simp

lemma ex_lexical_parts:
  "toLowerCase ''ab cd'' = ''ab cd''" "toLowerCase ''xx ab yy'' = ''xx ab yy''"
  "split_ws ''ab cd'' = [''ab'', ''cd'']" "split_ws ''xx ab yy'' = [''xx'', ''ab'', ''yy'']"
  "includes_str ''xx ab yy'' ''ab cd'' = False"
  "createExcerpt ''xx ab yy'' ''ab cd'' 200 = ''xx ab yy''"
  by code_simp+

lemma ex_lexical_relevance:
  "calculateRelevanceScore en ''ab cd'' ''xx ab yy'' = Inr 0"
  by (simp add: calculateRelevanceScore_def ex_lexical_parts Let_def)

lemma ex_lexical_search:
  "search_p3 ex_lexical ''ab cd'' 10
     = Inr [\<lparr>found = \<lparr>retrieved = ex_chunk 7 100 ''xx ab yy'', score_p3 = Some 1\<rparr>,
             relevanceScore = 0, excerpt = ''xx ab yy''\<rparr>]"
proof -
  have g: "generateEmbedding_p3 ex_lexical ''ab cd'' = None"
    by (simp add: generateEmbedding_p3_def ex_lexical_def)
  have c: "chunk_content (ex_chunk 7 100 ''xx ab yy'') = ''xx ab yy''"
    by (simp add: ex_chunk_def)
  have e: "enhance (regexp_p3 ex_lexical) ''ab cd''
             [\<lparr>retrieved = ex_chunk 7 100 ''xx ab yy'', score_p3 = Some 1\<rparr>]
           = Inr [\<lparr>found = \<lparr>retrieved = ex_chunk 7 100 ''xx ab yy'', score_p3 = Some 1\<rparr>,
             relevanceScore = 0, excerpt = ''xx ab yy''\<rparr>]"
    by (simp add: c ex_lexical_relevance ex_lexical_parts round2_def)
  show ?thesis
    by (simp add: search_p3_def g ex_lexical_basic e del: enhance.simps)
qed

lemma ex_text_search: "textSearch ex_text ''hello'' 10 = Inr [ex_hit 12 200, ex_hit 11 100]"
  by code_simp

text \<open>
  Claim C8, as the code has it. No lexical score is negative. The text search of the
  document service returns only documents with a positive score and lists only chunks
  with a positive score. In the chunk service the relevance score is not negative, and
  only \<open>basicContentSearch\<close> drops the chunks whose own score is 0; \<open>search\<close> keeps every
  chunk it retrieved (\<open>cands\<close>), whatever its relevance score.
\<close>

theorem lexical_scores:
  "(textSearch sv query limit = Inr results
      \<longrightarrow> (\<forall>r \<in> set results. 0 < score r
             \<and> (\<exists>ms. chunks r = Some ms \<and> (\<forall>m \<in> set ms. 0 < chunk_score m))))
   \<and> (calculateRelevanceScore en query ctext = Inr x \<longrightarrow> 0 \<le> x)
   \<and> (search_p3 sv3 query limit = Inr enhanced
        \<longrightarrow> (\<exists>cands.
              (case generateEmbedding_p3 sv3 query of
                 Some queryEmbedding \<Rightarrow> searchBySimilarity (chunk_db sv3) queryEmbedding limit
               | None \<Rightarrow> Inr (basicContentSearch sv3 query limit)) = Inr cands
              \<and> set (map found enhanced) = set cands \<and> length enhanced = length cands))
   \<and> (search_p3 sv3 query limit = Inr enhanced \<longrightarrow> (\<forall>r \<in> set enhanced. 0 \<le> relevanceScore r))
   \<and> (\<forall>r \<in> set (basicContentSearch sv3 query limit). \<exists>y. score_p3 r = Some y \<and> 0 < y)"
proof (intro conjI impI ballI)
  fix r
  assume t: "textSearch sv query limit = Inr results" and r: "r \<in> set results"
  from textSearch_Inr[OF t] obtain docs hits where
    h: "text_hits (regexp sv) (filter (\<lambda>w. 2 < length w) (split_ws (toLowerCase query))) docs
          = Inr hits"
    and rs: "results = slice (sort_key (\<lambda>r. - score r) hits) 0 limit" by blast
  from r rs have "r \<in> set hits" using set_slice_subset by fastforce
  from text_hits_sound[OF h this]
  show "0 < score r" and "\<exists>ms. chunks r = Some ms \<and> (\<forall>m \<in> set ms. 0 < chunk_score m)"
    by simp_all
next
  assume "calculateRelevanceScore en query ctext = Inr x"
  then show "0 \<le> x" by (rule calculateRelevanceScore_nonneg)
next
  assume "search_p3 sv3 query limit = Inr enhanced"
  from search_p3_Inr[OF this] obtain cands es where
    c: "(case generateEmbedding_p3 sv3 query of
           Some queryEmbedding \<Rightarrow> searchBySimilarity (chunk_db sv3) queryEmbedding limit
         | None \<Rightarrow> Inr (basicContentSearch sv3 query limit)) = Inr cands"
    and e: "enhance (regexp_p3 sv3) query cands = Inr es"
    and r: "enhanced = sort_key (\<lambda>r. - relevanceScore r) es" by blast
  from enhance_sound[OF e] have m: "map found es = cands" by simp
  have "set (map found enhanced) = set (map found es)" using r by simp
  moreover have "length enhanced = length es" using r by simp
  moreover have "length es = length cands" using m by (metis length_map)
  ultimately show "\<exists>cands.
      (case generateEmbedding_p3 sv3 query of
         Some queryEmbedding \<Rightarrow> searchBySimilarity (chunk_db sv3) queryEmbedding limit
       | None \<Rightarrow> Inr (basicContentSearch sv3 query limit)) = Inr cands
      \<and> set (map found enhanced) = set cands \<and> length enhanced = length cands"
    using c m by auto
next
  fix r
  assume "search_p3 sv3 query limit = Inr enhanced" and "r \<in> set enhanced"
  then show "0 \<le> relevanceScore r" by (rule search_p3_nonneg)
next
  fix r
  assume "r \<in> set (basicContentSearch sv3 query limit)"
  then show "\<exists>y. score_p3 r = Some y \<and> 0 < y" by (rule basicContentSearch_positive)
qed

theorem lexical_scores_witness:
  "textSearch ex_text ''hello'' 10 = Inr [ex_hit 12 200, ex_hit 11 100]
   \<and> 0 < score (ex_hit 12 200) \<and> 0 < score (ex_hit 11 100)
   \<and> calculateRelevanceScore (\<lambda>p f s. None) ''ab cd'' ''xx ab yy'' = Inr 0
   \<and> search_p3 ex_lexical ''ab cd'' 10
       = Inr [\<lparr>found = \<lparr>retrieved = ex_chunk 7 100 ''xx ab yy'', score_p3 = Some 1\<rparr>,
               relevanceScore = 0, excerpt = ''xx ab yy''\<rparr>]
   \<and> basicContentSearch ex_lexical ''ab cd'' 10
       = [\<lparr>retrieved = ex_chunk 7 100 ''xx ab yy'', score_p3 = Some 1\<rparr>]"
  using lexical_scores[of ex_text "''hello''" 10 "[ex_hit 12 200, ex_hit 11 100]"
      "\<lambda>p f s. None" "''xx ab yy''" 0 ex_lexical
      "[\<lparr>found = \<lparr>retrieved = ex_chunk 7 100 ''xx ab yy'', score_p3 = Some 1\<rparr>,
               relevanceScore = 0, excerpt = ''xx ab yy''\<rparr>]"]
    ex_text_search ex_lexical_search ex_lexical_basic ex_lexical_relevance
  by (simp add: ex_hit_def)

text \<open>
  Claim C8 as stated fails for the chunk service. The chunk \<open>xx ab yy\<close> has the word
  \<open>ab\<close> of the query \<open>ab cd\<close>, so \<open>basicContentSearch\<close> retrieves it; its relevance
  score is 0 (no phrase, no word longer than two characters, no pair of neighbours), and
  \<open>search\<close> returns it with that score.
\<close>

theorem search_p3_returns_zero_score:
  "search_p3 ex_lexical ''ab cd'' 10
     = Inr [\<lparr>found = \<lparr>retrieved = ex_chunk 7 100 ''xx ab yy'', score_p3 = Some 1\<rparr>,
             relevanceScore = 0, excerpt = ''xx ab yy''\<rparr>]
   \<and> calculateRelevanceScore (regexp_p3 ex_lexical) ''ab cd'' ''xx ab yy'' = Inr 0"
  using ex_lexical_search ex_lexical_relevance by simp

section \<open>Scoring modes\<close>

lemma enhance_scores:
  "enhance en query rs = Inr es \<Longrightarrow> e \<in> set es \<Longrightarrow>
     \<exists>x. calculateRelevanceScore en query (chunk_content (retrieved (found e))) = Inr x
         \<and> relevanceScore e = round2 x"
proof (induction rs arbitrary: es)
  case Nil
  then show ?case by simp
next
  case (Cons r rs)
  from Cons.prems(1) obtain x rest where
    x: "calculateRelevanceScore en query (chunk_content (retrieved r)) = Inr x"
    and rest: "enhance en query rs = Inr rest"
    and es: "es = \<lparr>found = r, relevanceScore = round2 x,
                    excerpt = createExcerpt (chunk_content (retrieved r)) query 200\<rparr> # rest"
    by (auto split: sum.splits)
  show ?case
  proof (cases "e \<in> set rest")
    case True
    from Cons.IH[OF rest True] show ?thesis .
  next
    case False
    with Cons.prems(2) es have "e = \<lparr>found = r, relevanceScore = round2 x,
                    excerpt = createExcerpt (chunk_content (retrieved r)) query 200\<rparr>" by simp
    with x show ?thesis by simp
  qed
qed

lemma ex_hybrid_retrieval:
  "searchBySimilarity (chunk_db ex_hybrid) ''[0.5]'' 2
     = Inr [\<lparr>retrieved = ex_chunk 7 100 ''hello'', score_p3 = Some 1\<rparr>,
            \<lparr>retrieved = ex_chunk 8 100 ''foo bar baz qux'', score_p3 = Some (1 / 11)\<rparr>]"
  "searchBySimilarity (chunk_db ex_hybrid) ''[0.5]'' 1
     = Inr [\<lparr>retrieved = ex_chunk 7 100 ''hello'', score_p3 = Some 1\<rparr>]"
  by code_simp+

lemma ex_hybrid_parts:
  "toLowerCase ''foo'' = ''foo''" "toLowerCase ''hello'' = ''hello''"
  "toLowerCase ''foo bar baz qux'' = ''foo bar baz qux''"
  "split_ws ''foo'' = [''foo'']" "split_ws ''hello'' = [''hello'']"
  "split_ws ''foo bar baz qux'' = [''foo'', ''bar'', ''baz'', ''qux'']"
  "includes_str ''hello'' ''foo'' = False" "includes_str ''foo bar baz qux'' ''foo'' = True"
  "word_matches en ''hello'' [''foo''] = Inr 0"
  "word_matches en ''foo bar baz qux'' [''foo''] = Inr 1"
  "createExcerpt ''hello'' ''foo'' 200 = ''hello''"
  "createExcerpt ''foo bar baz qux'' ''foo'' 200 = ''foo bar baz qux''"
  by code_simp+

lemma ex_hybrid_relevance:
  "calculateRelevanceScore en ''foo'' ''hello'' = Inr 0"
  "calculateRelevanceScore en ''foo'' ''foo bar baz qux'' = Inr (11 / 2)"
  by (simp_all add: calculateRelevanceScore_def ex_hybrid_parts Let_def del: word_matches.simps)

lemma ex_hybrid_round: "round2 0 = 0" "round2 (11 / 2) = 11 / 2"
  by (simp_all add: round2_def)

lemma ex_hybrid_search:
  "search_p3 ex_hybrid ''foo'' 2
     = Inr [ex_result (ex_chunk 8 100 ''foo bar baz qux'') (1 / 11) (11 / 2),
            ex_result (ex_chunk 7 100 ''hello'') 1 0]"
  "search_p3 ex_hybrid ''foo'' 1 = Inr [ex_result (ex_chunk 7 100 ''hello'') 1 0]"
proof -
  have g: "generateEmbedding_p3 ex_hybrid ''foo'' = Some ''[0.5]''"
    by (simp add: generateEmbedding_p3_def ex_hybrid_def)
  have c: "chunk_content (ex_chunk i t s) = s" for i t s
    by (simp add: ex_chunk_def)
  have e2: "enhance (regexp_p3 ex_hybrid) ''foo''
             [\<lparr>retrieved = ex_chunk 7 100 ''hello'', score_p3 = Some 1\<rparr>,
              \<lparr>retrieved = ex_chunk 8 100 ''foo bar baz qux'', score_p3 = Some (1 / 11)\<rparr>]
           = Inr [ex_result (ex_chunk 7 100 ''hello'') 1 0,
                  ex_result (ex_chunk 8 100 ''foo bar baz qux'') (1 / 11) (11 / 2)]"
    by (simp add: c ex_hybrid_relevance ex_hybrid_parts ex_hybrid_round ex_result_def)
  have e1: "enhance (regexp_p3 ex_hybrid) ''foo''
             [\<lparr>retrieved = ex_chunk 7 100 ''hello'', score_p3 = Some 1\<rparr>]
           = Inr [ex_result (ex_chunk 7 100 ''hello'') 1 0]"
    by (simp add: c ex_hybrid_relevance ex_hybrid_parts ex_hybrid_round ex_result_def)
  have r: "relevanceScore (ex_result k s rel) = rel" for k s rel
    by (simp add: ex_result_def)
  show "search_p3 ex_hybrid ''foo'' 2
     = Inr [ex_result (ex_chunk 8 100 ''foo bar baz qux'') (1 / 11) (11 / 2),
            ex_result (ex_chunk 7 100 ''hello'') 1 0]"
    by (simp add: search_p3_def g ex_hybrid_retrieval e2 r del: enhance.simps searchBySimilarity.simps)
  show "search_p3 ex_hybrid ''foo'' 1 = Inr [ex_result (ex_chunk 7 100 ''hello'') 1 0]"
    by (simp add: search_p3_def g ex_hybrid_retrieval e1 r del: enhance.simps searchBySimilarity.simps)
qed

text \<open>
  Claim C3, as the code has it. The search of the document service returns the list of
  one mode: either the very list of the semantic search, whose results carry a cosine
  score and no chunks, or the very list of the text search, whose results carry a match
  count and their chunks. The search of the chunk service retrieves its candidates
  (\<open>cands\<close>) by one retrieval, keeps them all, and orders them by the lexical relevance
  score, whichever retrieval found them.
\<close>

theorem result_modes:
  "(search sv query limit = Inr results
      \<longrightarrow> (semanticSearch sv query limit = Inr results \<and> (\<forall>r \<in> set results. chunks r = None))
        \<or> (textSearch sv query limit = Inr results \<and> (\<forall>r \<in> set results. chunks r \<noteq> None)))
   \<and> (search_p3 sv3 query limit = Inr enhanced
        \<longrightarrow> sorted_wrt (\<lambda>a b. relevanceScore b \<le> relevanceScore a) enhanced
          \<and> (\<forall>e \<in> set enhanced.
                \<exists>x. calculateRelevanceScore (regexp_p3 sv3) query
                       (chunk_content (retrieved (found e))) = Inr x
                    \<and> relevanceScore e = round2 x)
          \<and> (\<exists>cands.
                (case generateEmbedding_p3 sv3 query of
                   Some queryEmbedding \<Rightarrow> searchBySimilarity (chunk_db sv3) queryEmbedding limit
                 | None \<Rightarrow> Inr (basicContentSearch sv3 query limit)) = Inr cands
                \<and> set (map found enhanced) = set cands))"
proof (intro conjI impI)
  assume s: "search sv query limit = Inr results"
  from search_one_mode[of sv query limit] s
  consider "semanticSearch sv query limit = Inr results" | "textSearch sv query limit = Inr results"
    by auto
  then show "(semanticSearch sv query limit = Inr results \<and> (\<forall>r \<in> set results. chunks r = None))
        \<or> (textSearch sv query limit = Inr results \<and> (\<forall>r \<in> set results. chunks r \<noteq> None))"
  proof cases
    case 1
    from semanticSearch_Inr[OF 1] obtain qe docs where
      r: "results = slice (sort_key (\<lambda>r. - score r) (semantic_hits qe docs)) 0 limit" by blast
    have "\<forall>r \<in> set results. chunks r = None"
    proof
      fix x assume "x \<in> set results"
      with r have "x \<in> set (semantic_hits qe docs)" using set_slice_subset by fastforce
      then show "chunks x = None" using semantic_hits_sound by blast
    qed
    with 1 show ?thesis by simp
  next
    case 2
    from textSearch_Inr[OF 2] obtain docs hits where
      h: "text_hits (regexp sv) (filter (\<lambda>w. 2 < length w) (split_ws (toLowerCase query))) docs
            = Inr hits"
      and r: "results = slice (sort_key (\<lambda>r. - score r) hits) 0 limit" by blast
    have "\<forall>r \<in> set results. chunks r \<noteq> None"
    proof
      fix x assume "x \<in> set results"
      with r have "x \<in> set hits" using set_slice_subset by fastforce
      from text_hits_sound[OF h this] show "chunks x \<noteq> None" by auto
    qed
    with 2 show ?thesis by simp
  qed
next
  assume "search_p3 sv3 query limit = Inr enhanced"
  from search_p3_Inr[OF this] obtain cands es where
    c: "(case generateEmbedding_p3 sv3 query of
           Some queryEmbedding \<Rightarrow> searchBySimilarity (chunk_db sv3) queryEmbedding limit
         | None \<Rightarrow> Inr (basicContentSearch sv3 query limit)) = Inr cands"
    and e: "enhance (regexp_p3 sv3) query cands = Inr es"
    and r: "enhanced = sort_key (\<lambda>r. - relevanceScore r) es" by blast
  have "sorted (map (\<lambda>r. - relevanceScore r) enhanced)" unfolding r by (rule sorted_sort_key)
  then show "sorted_wrt (\<lambda>a b. relevanceScore b \<le> relevanceScore a) enhanced"
    by (simp add: sorted_map)
  show "\<forall>e \<in> set enhanced.
          \<exists>x. calculateRelevanceScore (regexp_p3 sv3) query
                 (chunk_content (retrieved (found e))) = Inr x
              \<and> relevanceScore e = round2 x"
  proof
    fix x assume "x \<in> set enhanced"
    with r have "x \<in> set es" by simp
    from enhance_scores[OF e this]
    show "\<exists>y. calculateRelevanceScore (regexp_p3 sv3) query
                 (chunk_content (retrieved (found x))) = Inr y
              \<and> relevanceScore x = round2 y" .
  qed
  from enhance_sound[OF e] have m: "map found es = cands" by simp
  have "set (map found enhanced) = set (map found es)" using r by simp
  then show "\<exists>cands.
      (case generateEmbedding_p3 sv3 query of
         Some queryEmbedding \<Rightarrow> searchBySimilarity (chunk_db sv3) queryEmbedding limit
       | None \<Rightarrow> Inr (basicContentSearch sv3 query limit)) = Inr cands
      \<and> set (map found enhanced) = set cands"
    using c m by auto
qed

theorem result_modes_witness:
  "search ex_text ''hello'' 10 = Inr [ex_hit 12 200, ex_hit 11 100]
   \<and> textSearch ex_text ''hello'' 10 = Inr [ex_hit 12 200, ex_hit 11 100]
   \<and> chunks (ex_hit 12 200) \<noteq> None \<and> chunks (ex_hit 11 100) \<noteq> None
   \<and> search_p3 ex_hybrid ''foo'' 2
       = Inr [ex_result (ex_chunk 8 100 ''foo bar baz qux'') (1 / 11) (11 / 2),
              ex_result (ex_chunk 7 100 ''hello'') 1 0]
   \<and> sorted_wrt (\<lambda>a b. relevanceScore b \<le> relevanceScore a)
        [ex_result (ex_chunk 8 100 ''foo bar baz qux'') (1 / 11) (11 / 2),
         ex_result (ex_chunk 7 100 ''hello'') 1 0]"
  using result_modes[of ex_text "''hello''" 10 "[ex_hit 12 200, ex_hit 11 100]"]
    result_modes[of _ "''foo''" 2 _ ex_hybrid
      "[ex_result (ex_chunk 8 100 ''foo bar baz qux'') (1 / 11) (11 / 2),
        ex_result (ex_chunk 7 100 ''hello'') 1 0]"]
    ex_text_eval ex_text_search ex_hybrid_search(1)
  by (simp add: ex_hit_def ex_result_def)

text \<open>
  Claim C3 as stated fails for the chunk service. With an embedding for the query, the
  candidates are the chunks of the highest SQL similarity, and the list is ordered by the
  lexical relevance score. For the limit 2 the chunk of similarity \<open>1/11\<close> stands before
  the chunk of similarity 1, because its relevance is 5.5 against 0; for the limit 1 the
  only result is the chunk of relevance 0, because its similarity is the highest. Both
  scores decide the one list.
\<close>

theorem search_p3_mixes_modes:
  "search_p3 ex_hybrid ''foo'' 2
     = Inr [ex_result (ex_chunk 8 100 ''foo bar baz qux'') (1 / 11) (11 / 2),
            ex_result (ex_chunk 7 100 ''hello'') 1 0]
   \<and> the (score_p3 (found (ex_result (ex_chunk 8 100 ''foo bar baz qux'') (1 / 11) (11 / 2))))
       < the (score_p3 (found (ex_result (ex_chunk 7 100 ''hello'') 1 0)))
   \<and> relevanceScore (ex_result (ex_chunk 7 100 ''hello'') 1 0)
       < relevanceScore (ex_result (ex_chunk 8 100 ''foo bar baz qux'') (1 / 11) (11 / 2))
   \<and> search_p3 ex_hybrid ''foo'' 1 = Inr [ex_result (ex_chunk 7 100 ''hello'') 1 0]"
  using ex_hybrid_search by (simp add: ex_result_def)


section \<open>Queries with fewer than two characters\<close>

lemma space_codes:
  "char_of (9::nat) = CHR 0x09" "char_of (10::nat) = CHR 0x0A" "char_of (11::nat) = CHR 0x0B"
  "char_of (12::nat) = CHR 0x0C" "char_of (13::nat) = CHR 0x0D" "char_of (32::nat) = CHR 0x20"
  "char_of (160::nat) = CHR 0xA0"
  by code_simp+

lemma is_space_code: "is_space c \<longleftrightarrow> (of_char c :: nat) \<in> {9, 10, 11, 12, 13, 32, 160}"
proof
  assume "is_space c"
  then show "(of_char c :: nat) \<in> {9, 10, 11, 12, 13, 32, 160}"
    by (auto simp: is_space_def)
next
  assume a: "(of_char c :: nat) \<in> {9, 10, 11, 12, 13, 32, 160}"
  then have "char_of (of_char c :: nat) \<in> char_of ` {9, 10, 11, 12, 13, 32, 160 :: nat}"
    by (rule imageI)
  then have "c \<in> char_of ` {9, 10, 11, 12, 13, 32, 160 :: nat}" by simp
  then show "is_space c"
    by (simp add: is_space_def space_codes)
qed

lemma is_space_toLowerChar: "is_space (toLowerChar c) = is_space c"
  by (auto simp: is_space_code toLowerChar_def Let_def)

lemma split_from_field_length:
  "w \<in> set (split_from sep s) \<Longrightarrow> length w \<le> length (filter (\<lambda>c. \<not> is_space c) s)"
proof (induction s arbitrary: sep w)
  case Nil
  then show ?case by simp
next
  case (Cons a s)
  show ?case
  proof (cases "is_space a")
    case True
    with Cons.prems have "w = [] \<or> w \<in> set (split_from True s)" by (auto split: if_splits)
    then show ?thesis using Cons.IH[of w True] True by auto
  next
    case False
    obtain v vs where sp: "split_from False s = v # vs"
      using split_from_nonempty[of False s] by (cases "split_from False s") auto
    with Cons.prems False have "w = a # v \<or> w \<in> set vs" by auto
    then show ?thesis
    proof
      assume "w = a # v"
      moreover have "length v \<le> length (filter (\<lambda>c. \<not> is_space c) s)"
        using Cons.IH[of v False] sp by simp
      ultimately show ?thesis using False by simp
    next
      assume "w \<in> set vs"
      then have "w \<in> set (split_from False s)" using sp by simp
      from Cons.IH[OF this] show ?thesis using False by simp
    qed
  qed
qed

lemma trim_short:
  assumes "length (filter (\<lambda>c. \<not> is_space c) q) < 2"
  shows "length (trim q) < 2"
proof (rule ccontr)
  assume "\<not> length (trim q) < 2"
  then have l: "2 \<le> length (trim q)" by simp
  let ?a = "dropWhile is_space q"
  let ?b = "dropWhile is_space (rev ?a)"
  have t: "trim q = rev ?b" by (simp add: trim_def)
  from l t have lb: "2 \<le> length ?b" by simp
  then obtain x y zs where b: "?b = x # y # zs"
    by (cases ?b; cases "tl ?b") auto
  have nx: "\<not> is_space x" using hd_dropWhile[of is_space "rev ?a"] b by simp
  have suffix_b: "\<exists>ps. rev ?a = ps @ ?b"
    by (metis takeWhile_dropWhile_id)
  then obtain ps where ps: "rev ?a = ps @ x # y # zs" using b by auto
  then have a: "?a = rev (y # zs) @ x # rev ps"
    by (metis rev_append rev_rev_ident rev.simps(2) append.assoc append_Cons append_Nil)
  have ane: "?a \<noteq> []" using a by simp
  have nh: "\<not> is_space (hd ?a)" using hd_dropWhile[OF ane] .
  have "hd ?a = last (y # zs)" using a by (simp add: hd_append hd_rev)
  with nh have "\<not> is_space (last (y # zs))" by simp
  moreover have "last (y # zs) \<in> set (y # zs)" by (rule last_in_set) simp
  ultimately have "filter (\<lambda>c. \<not> is_space c) (y # zs) \<noteq> []"
    by (metis (mono_tags, lifting) filter_empty_conv)
  then have "1 \<le> length (filter (\<lambda>c. \<not> is_space c) (rev (y # zs)))"
    by (metis One_nat_def Suc_leI length_greater_0_conv rev_filter rev_is_Nil_conv)
  moreover have "1 \<le> length (filter (\<lambda>c. \<not> is_space c) (x # rev ps))"
    using nx by simp
  moreover have "length (filter (\<lambda>c. \<not> is_space c) ?a)
      = length (filter (\<lambda>c. \<not> is_space c) (rev (y # zs)))
        + length (filter (\<lambda>c. \<not> is_space c) (x # rev ps))"
    by (subst a) (simp only: filter_append length_append)
  ultimately have "2 \<le> length (filter (\<lambda>c. \<not> is_space c) ?a)"
    by linarith
  moreover have "length (filter (\<lambda>c. \<not> is_space c) ?a) \<le> length (filter (\<lambda>c. \<not> is_space c) q)"
  proof -
    have "q = takeWhile is_space q @ ?a" by simp
    then have "filter (\<lambda>c. \<not> is_space c) q
        = filter (\<lambda>c. \<not> is_space c) (takeWhile is_space q) @ filter (\<lambda>c. \<not> is_space c) ?a"
      by (metis filter_append)
    then show ?thesis by simp
  qed
  ultimately show False using assms by simp
qed

lemma semantic_hits_no_embedding:
  "\<forall>d \<in> set docs. embedding d = None \<Longrightarrow> semantic_hits qe docs = []"
  by (induction docs) auto

lemma getAllDocuments_no_embedding:
  "getAllDocuments db = Inr docs \<Longrightarrow> \<forall>d \<in> set docs. embedding d = None"
  by (cases db) auto

lemma match_chunks_no_words: "match_chunks en [] cs = Inr []"
  by (induction cs) auto

lemma text_hits_no_words: "text_hits en [] docs = Inr []"
proof (induction docs)
  case Nil
  then show ?case by simp
next
  case (Cons d ds)
  obtain cs where "splitTextIntoChunks (toLowerCase (content d)) 500 50 = Some cs"
    using splitTextIntoChunks_returns[of 50 500 "toLowerCase (content d)"] by auto
  with Cons show ?case by (simp add: match_chunks_no_words)
qed

lemma query_words_short:
  assumes "length (filter (\<lambda>c. \<not> is_space c) q) < 2"
  shows "filter (\<lambda>w. 2 < length w) (split_ws (toLowerCase q)) = []"
proof -
  have "filter (\<lambda>c. \<not> is_space c) (toLowerCase q)
          = map toLowerChar (filter (\<lambda>c. \<not> is_space c) q)"
    by (simp add: toLowerCase_def filter_map comp_def is_space_toLowerChar)
  then have l: "length (filter (\<lambda>c. \<not> is_space c) (toLowerCase q)) < 2"
    using assms by simp
  have "\<forall>w \<in> set (split_ws (toLowerCase q)). \<not> 2 < length w"
  proof
    fix w assume "w \<in> set (split_ws (toLowerCase q))"
    then have "length w \<le> length (filter (\<lambda>c. \<not> is_space c) (toLowerCase q))"
      unfolding split_ws_def by (rule split_from_field_length)
    with l show "\<not> 2 < length w" by simp
  qed
  then show ?thesis by (simp add: filter_empty_conv)
qed

lemma search_short_query:
  assumes "length (filter (\<lambda>c. \<not> is_space c) q) < 2"
  shows "search \<lparr>openai = client, db_getAllDocuments = getAllDocuments (Table rows), regexp = en\<rparr>
           q limit = Inr []"
proof -
  let ?sv = "\<lparr>openai = client, db_getAllDocuments = getAllDocuments (Table rows), regexp = en\<rparr>"
  obtain docs where docs: "db_getAllDocuments ?sv = Inr docs" by simp
  then have ne: "\<forall>d \<in> set docs. embedding d = None"
    using getAllDocuments_no_embedding[of "Table rows" docs] by simp
  have t: "textSearch ?sv q limit = Inr []"
    using docs by (simp add: textSearch_def query_words_short[OF assms] text_hits_no_words slice_def)
  show ?thesis
  proof (cases "semanticSearch ?sv q limit")
    case (Inl e)
    then show ?thesis using t by (simp add: search_semantic_failed)
  next
    case (Inr rs)
    from semanticSearch_Inr[OF Inr] obtain qe ds where
      d: "db_getAllDocuments ?sv = Inr ds"
      and r: "rs = slice (sort_key (\<lambda>r. - score r) (semantic_hits qe ds)) 0 limit" by blast
    from d docs have "ds = docs" by simp
    with ne have "semantic_hits qe ds = []" by (simp add: semantic_hits_no_embedding)
    with r have "rs = []" by (simp add: slice_def)
    with Inr show ?thesis by (simp add: search_semantic_ok)
  qed
qed

lemma ex_short_query_parts:
  "trim ''a'' = ''a''" "length (filter (\<lambda>c. \<not> is_space c) ''a'') = 1"
  "trim ''  '' = []" "length (filter (\<lambda>c. \<not> is_space c) ''  '') = 0"
  by code_simp+

text \<open>
  Claim C2, as the code has it. For a query with fewer than two characters that are no
  whitespace, the route \<open>POST /api/search\<close> of the chunk service answers with status
  400 and an error, without a search. The route \<open>GET /search\<close> of the document
  service answers a query without any such character with status 400; a query with one
  such character goes to the search, and the answer is the empty list of results when
  the store can be read and status 500 when it cannot.
\<close>

theorem short_query_routes:
  "length (filter (\<lambda>c. \<not> is_space c) q) < 2 \<longrightarrow>
     (\<exists>msg. post_api_search sv3 q limit = BadRequest msg)
     \<and> (trim q = [] \<longrightarrow> get_search client en db q limit_param
            = BadRequest ''Search query is required'')
     \<and> (trim q \<noteq> [] \<longrightarrow> get_search client en (Table rows) q limit_param = Found []
            \<and> get_search client en Unavailable q limit_param = ServerError)"
proof (intro impI conjI)
  assume a: "length (filter (\<lambda>c. \<not> is_space c) q) < 2"
  from trim_short[OF a] show "\<exists>msg. post_api_search sv3 q limit = BadRequest msg"
    by (simp add: post_api_search_def)
  show "get_search client en db q limit_param = BadRequest ''Search query is required''"
    if "trim q = []"
    using that by (simp add: get_search_def Let_def)
  show "get_search client en (Table rows) q limit_param = Found []" if n: "trim q \<noteq> []"
  proof -
    from n have "q \<noteq> []" by (auto simp: trim_def)
    with n show ?thesis
      by (simp add: get_search_def Let_def search_short_query[OF a] del: getAllDocuments.simps)
  qed
  show "get_search client en Unavailable q limit_param = ServerError" if n: "trim q \<noteq> []"
  proof -
    from n have "q \<noteq> []" by (auto simp: trim_def)
    with n show ?thesis
      by (simp add: get_search_def Let_def split: sum.splits)
  qed
qed

theorem short_query_routes_witness:
  "length (filter (\<lambda>c. \<not> is_space c) ''a'') < 2
   \<and> (\<exists>msg. post_api_search ex_lexical ''a'' 10 = BadRequest msg)
   \<and> trim ''a'' \<noteq> []
   \<and> get_search None (\<lambda>p f s. None) ex_store ''a'' None = Found []
   \<and> get_search None (\<lambda>p f s. None) Unavailable ''a'' None = ServerError
   \<and> length (filter (\<lambda>c. \<not> is_space c) ''  '') < 2
   \<and> trim ''  '' = []
   \<and> (\<exists>msg. post_api_search ex_lexical ''  '' 10 = BadRequest msg)
   \<and> get_search None (\<lambda>p f s. None) ex_store ''  '' None
       = BadRequest ''Search query is required''"
  using short_query_routes[of "''a''" ex_lexical 10 None "\<lambda>p f s. None" _ None
      "[ex_row 11 100 ''hello world'' None, ex_row 12 200 ''hello world'' None]"]
    short_query_routes[of "''  ''" ex_lexical 10 None "\<lambda>p f s. None" ex_store None]
  by (simp add: ex_short_query_parts ex_store_def is_space_def)

text \<open>
  Claim C2 as stated fails at the routes: the query \<open>a\<close> and the empty query get an
  error response from \<open>POST /api/search\<close>, not an empty list of results.
\<close>

theorem post_api_search_rejects_short:
  "post_api_search ex_lexical ''a'' 10 = BadRequest ''Search query too short''
   \<and> post_api_search ex_lexical [] 10 = BadRequest ''Search query is required''
   \<and> get_search None (\<lambda>p f s. None) ex_store [] None
       = BadRequest ''Search query is required''"
  by (simp add: post_api_search_def get_search_def ex_short_query_parts)

section \<open>The character chunker and the excerpt\<close>

text \<open>
  Past the early return, every chunk of the character chunker is non-blank.
\<close>

lemma trim_trim_nonblank: "trim c \<noteq> [] \<Longrightarrow> trim (trim c) \<noteq> []"
proof -
  assume a: "trim c \<noteq> []"
  let ?b = "dropWhile is_space (rev (dropWhile is_space c))"
  from a have b: "?b \<noteq> []" by (simp add: trim_def)
  then have "\<not> is_space (hd ?b)" by (rule hd_dropWhile)
  moreover have "hd ?b \<in> set (trim c)" using b by (simp add: trim_def)
  ultimately show ?thesis by (auto simp only: trim_empty_iff)
qed

declare split_loop.simps [simp del]

lemma split_loop_nonblank:
  "c \<in> set (split_loop t cs ov start) \<Longrightarrow> trim c \<noteq> []"
proof (induction t cs ov start rule: split_loop.induct)
  case (1 t cs ov start)
  show ?case
  proof (cases "start < length t")
    case False
    with "1.prems" show ?thesis by (subst (asm) split_loop.simps) simp
  next
    case True
    from "1.prems" True show ?thesis
      apply (subst (asm) split_loop.simps)
      apply (simp add: Let_def split: if_splits)
      using "1.IH"[OF True refl refl refl refl refl refl] trim_trim_nonblank
      apply (auto simp: Let_def split: if_splits)
      done
  qed
qed

lemma splitIntoChunks_long_nonblank:
  "length (cleanText t) > cs \<Longrightarrow> c \<in> set (splitIntoChunks t cs ov) \<Longrightarrow> trim c \<noteq> []"
  by (auto simp: splitIntoChunks_def split_loop_nonblank split: if_splits)

text \<open>
  The excerpt for an even maximal length \<open>2 * h\<close>: the window starts \<open>h\<close> characters
  before the first occurrence (at 0 when there are fewer), has at most \<open>2 * h\<close>
  characters, and the markers say on which sides the text goes on.
\<close>

lemma indexOf_bound: "indexOf s p = Some i \<Longrightarrow> i \<le> length s"
  by (induction s arbitrary: i) (auto split: if_splits)

lemma createExcerpt_not_found:
  "indexOf (toLowerCase ctext) (toLowerCase query) = None \<Longrightarrow>
     createExcerpt ctext query maxLength
       = take maxLength ctext @ (if maxLength < length ctext then ''...'' else [])"
  by (simp add: createExcerpt_def substring_def)

lemma createExcerpt_even:
  assumes "indexOf (toLowerCase ctext) (toLowerCase query) = Some i"
  shows "createExcerpt ctext query (2 * h)
       = (if 0 < i - h then ''...'' else [])
         @ take (min (length ctext) (i - h + 2 * h) - (i - h)) (drop (i - h) ctext)
         @ (if i - h + 2 * h < length ctext then ''...'' else [])"
proof -
  have i: "i \<le> length ctext"
    using indexOf_bound[OF assms] by (simp add: toLowerCase_def)
  define start where "start = max 0 (rat_of_nat i - rat_of_nat (2 * h) / 2)"
  define stop where "stop = min (rat_of_nat (length ctext)) (start + rat_of_nat (2 * h))"
  have s: "start = rat_of_nat (i - h)"
    unfolding start_def by (cases "h \<le> i") (simp_all add: of_nat_diff)
  have e: "stop = rat_of_nat (min (length ctext) (i - h + 2 * h))"
    unfolding stop_def s by (simp add: min_def)
  have fs: "nat \<lfloor>start\<rfloor> = i - h" unfolding s by simp
  have fe: "nat \<lfloor>stop\<rfloor> = min (length ctext) (i - h + 2 * h)" unfolding e by simp
  have le: "i - h \<le> min (length ctext) (i - h + 2 * h)" using i by simp
  have sub: "substring ctext (nat \<lfloor>start\<rfloor>) (nat \<lfloor>stop\<rfloor>)
      = take (min (length ctext) (i - h + 2 * h) - (i - h)) (drop (i - h) ctext)"
    unfolding fs fe substring_def using le by (simp only: min_absorb1 max_absorb2)
  have p: "(0 < start) = (0 < i - h)" unfolding s by simp
  have q: "(stop < rat_of_nat (length ctext)) = (i - h + 2 * h < length ctext)"
    unfolding e by (simp add: min_def)
  have "createExcerpt ctext query (2 * h)
      = (let window = substring ctext (nat \<lfloor>start\<rfloor>) (nat \<lfloor>stop\<rfloor>);
             window = (if start > 0 then ''...'' @ window else window);
             window = (if stop < rat_of_nat (length ctext) then window @ ''...'' else window)
         in window)"
    unfolding createExcerpt_def assms option.case start_def stop_def Let_def ..
  then show ?thesis unfolding sub p q Let_def by (simp add: mult_2 split: if_splits)
qed

text \<open>
  Claim C6, at the input where the code breaks it. A text of three spaces is not the empty
  string, its cleaned text is empty and so not longer than the chunk size, and
  \<open>splitIntoChunks\<close> returns that empty text as the one chunk.
\<close>

theorem splitIntoChunks_blank_text: "splitIntoChunks ''   '' 1000 100 = [[]]"
  by code_simp

text \<open>
  Claim C10, at the input where the code breaks it. With the odd length 3 the start of the
  window is \<open>2 - 1.5 = 0.5\<close>: \<open>substring\<close> cuts from index 0, the beginning of the text,
  and the test \<open>start > 0\<close> still puts the marker in front.
\<close>

theorem createExcerpt_odd_length: "createExcerpt ''xyab'' ''ab'' 3 = ''...xya...''"
  by code_simp

end
